theory Spec2Isabelle
  imports Complex_Main
begin

section \<open>The collect-the-dot simulation of the gamepad example\<close>

text \<open>
  The game loop of the main screen (the second module of \<^verbatim>\<open>src/components/GameView.tsx\<close>,
  component \<^verbatim>\<open>Home\<close> and the helper functions below it) is embedded here.

  A TypeScript \<^verbatim>\<open>number\<close> is modelled as a \<^typ>\<open>real\<close> and arithmetic is exact. Two
  further embeddings cover what this leaves out where a property depends on it: the
  movement vector with the rounding of doubles written out, and the frame step with the
  operations that can go wrong (a division by zero, which gives \<^verbatim>\<open>NaN\<close> or
  \<^verbatim>\<open>Infinity\<close>, and the call of a missing function) returning a failure.
  \<^verbatim>\<open>Math.min\<close>, \<^verbatim>\<open>Math.max\<close> are \<^const>\<open>min\<close> and \<^const>\<open>max\<close>, and
  \<^verbatim>\<open>Math.hypot(a, b)\<close> is the square root of \<open>a\<^sup>2 + b\<^sup>2\<close>.
  A \<^verbatim>\<open>GamepadButtonName\<close> is the string the source writes (\<^verbatim>\<open>"x"\<close>, \<^verbatim>\<open>"dpadUp"\<close>, ...),
  the pressed buttons are a set of such names, and the axes object is a partial map from
  the axis name to its value, so that \<^verbatim>\<open>axes.leftX ?? 0\<close> is a lookup with default \<open>0\<close>.
  \<^verbatim>\<open>Math.random()\<close> reads the next element of a sequence of samples \<open>rnd\<close>; the index of
  the next unread sample is threaded through the functions that draw.
\<close>

subsection \<open>Data\<close>

record point =
  x :: real
  y :: real

record PlayerState = point +
  rotation :: real
  scale :: real

type_synonym GamepadButtonName = string

type_synonym Axes = "string \<rightharpoonup> real"

definition PLAYER_SIZE :: real where
  "PLAYER_SIZE = 44"

definition TARGET_SIZE :: real where
  "TARGET_SIZE = 26"

definition BASE_SPEED :: real where
  "BASE_SPEED = 240"

text \<open>\<^verbatim>\<open>const boardSize = Math.max(260, Math.min(width - 32, 420))\<close>\<close>

definition boardSize :: "real \<Rightarrow> real" where
  "boardSize width = max 260 (min (width - 32) 420)"

subsection \<open>Helper functions\<close>

text \<open>\<^verbatim>\<open>clamp(value, min, max) = Math.min(max, Math.max(min, value))\<close>\<close>

definition clamp :: "real \<Rightarrow> real \<Rightarrow> real \<Rightarrow> real" where
  "clamp v lo hi = min hi (max lo v)"

definition hypot :: "real \<Rightarrow> real \<Rightarrow> real" where
  "hypot a b = sqrt (a\<^sup>2 + b\<^sup>2)"

text \<open>
  \<^verbatim>\<open>distance\<close> takes any two objects with fields \<^verbatim>\<open>x\<close> and \<^verbatim>\<open>y\<close>: the source calls it
  with a player state and a point in either order.
\<close>

definition distance :: "'a point_scheme \<Rightarrow> 'b point_scheme \<Rightarrow> real" where
  "distance a b = hypot (x a - x b) (y a - y b)"

text \<open>\<^verbatim>\<open>axes.leftX ?? 0\<close>\<close>

definition axisOrZero :: "Axes \<Rightarrow> string \<Rightarrow> real" where
  "axisOrZero axes name = (case axes name of None \<Rightarrow> 0 | Some v \<Rightarrow> v)"

text \<open>\<^verbatim>\<open>pressed.has(b) ? 1 : 0\<close>\<close>

definition held :: "GamepadButtonName set \<Rightarrow> GamepadButtonName \<Rightarrow> real" where
  "held pressed b = (if b \<in> pressed then 1 else 0)"

definition getInputVector :: "Axes \<Rightarrow> GamepadButtonName set \<Rightarrow> point" where
  "getInputVector axes pressed =
     (let leftX = axisOrZero axes ''leftX'';
          leftY = axisOrZero axes ''leftY'';
          cx = clamp (leftX + held pressed ''dpadRight'' - held pressed ''dpadLeft'') (- 1) 1;
          cy = clamp (leftY + held pressed ''dpadDown'' - held pressed ''dpadUp'') (- 1) 1;
          magnitude = max 1 (hypot cx cy)
      in \<lparr>x = cx / magnitude, y = cy / magnitude\<rparr>)"

text \<open>\<^verbatim>\<open>randomBetween(min, max) = Math.random() * (max - min) + min\<close>, drawing sample \<open>k\<close>.\<close>

definition randomBetween :: "real \<Rightarrow> real \<Rightarrow> (nat \<Rightarrow> real) \<Rightarrow> nat \<Rightarrow> real \<times> nat" where
  "randomBetween lo hi rnd k = (rnd k * (hi - lo) + lo, Suc k)"

definition randomPoint :: "real \<Rightarrow> (nat \<Rightarrow> real) \<Rightarrow> nat \<Rightarrow> point \<times> nat" where
  "randomPoint bs rnd k =
     (let margin = PLAYER_SIZE;
          (px, k1) = randomBetween margin (bs - margin) rnd k;
          (py, k2) = randomBetween margin (bs - margin) rnd k1
      in (\<lparr>x = px, y = py\<rparr>, k2))"

text \<open>
  The loop of \<^verbatim>\<open>spawnTarget\<close>, \<^verbatim>\<open>for (let i = 0; i < 20; i++)\<close>, with the loop variable
  \<open>i\<close>, the current candidate and the index of the next sample as its state.
\<close>

function spawnTarget_loop ::
  "real \<Rightarrow> PlayerState \<Rightarrow> (nat \<Rightarrow> real) \<Rightarrow> nat \<Rightarrow> point \<Rightarrow> nat \<Rightarrow> point \<times> nat" where
  "spawnTarget_loop bs pl rnd i candidate k =
     (if i < 20 then
        (if distance candidate pl > 100 then (candidate, k)
         else (case randomPoint bs rnd k of
                 (candidate', k') \<Rightarrow> spawnTarget_loop bs pl rnd (i + 1) candidate' k'))
      else (candidate, k))"
  by pat_completeness auto
termination
  by (relation "measure (\<lambda>(bs, pl, rnd, i, candidate, k). 20 - i)") auto

declare spawnTarget_loop.simps [simp del]

definition spawnTarget :: "real \<Rightarrow> PlayerState \<Rightarrow> (nat \<Rightarrow> real) \<Rightarrow> nat \<Rightarrow> point \<times> nat" where
  "spawnTarget bs pl rnd k =
     (case randomPoint bs rnd k of (candidate, k') \<Rightarrow> spawnTarget_loop bs pl rnd 0 candidate k')"

subsection \<open>The simulation state and one frame\<close>

text \<open>
  The state the frame callback reads and writes: the React states \<^verbatim>\<open>player\<close>, \<^verbatim>\<open>target\<close>
  (with its mirror \<^verbatim>\<open>targetRef\<close>) and \<^verbatim>\<open>score\<close>, and the ref \<^verbatim>\<open>lastFrame\<close>. Two fields
  record the effects on the outside: \<open>drawn\<close> counts the samples read from
  \<^verbatim>\<open>Math.random()\<close>, and \<open>pulses\<close> lists the calls \<^verbatim>\<open>vibrate(duration, intensity)\<close>.
\<close>

record Game =
  player :: PlayerState
  target :: point
  score :: int
  lastFrame :: "real option"
  drawn :: nat
  pulses :: "(real \<times> real) list"

text \<open>
  What one invocation of the callback is given: the frame's timestamp and the current
  contents of \<^verbatim>\<open>pressedRef\<close> and \<^verbatim>\<open>axesRef\<close>.
\<close>

record Frame =
  timestamp :: real
  pressedRef :: "GamepadButtonName set"
  axesRef :: Axes

text \<open>
  \<^verbatim>\<open>const last = lastFrame.current ?? timestamp;\<close>
  \<^verbatim>\<open>const dt = Math.min((timestamp - last) / 1000, 0.05);\<close>
\<close>

definition frameDt :: "real option \<Rightarrow> real \<Rightarrow> real" where
  "frameDt lastF ts =
     (let lst = (case lastF of None \<Rightarrow> ts | Some t \<Rightarrow> t)
      in min ((ts - lst) / 1000) 0.05)"

text \<open>\<^verbatim>\<open>const currentSpeed = isTurbo ? BASE_SPEED * 2.5 : BASE_SPEED\<close>\<close>

definition currentSpeed :: "GamepadButtonName set \<Rightarrow> real" where
  "currentSpeed pressed =
     (let isTurbo = (''x'' \<in> pressed)
      in if isTurbo then BASE_SPEED * 2.5 else BASE_SPEED)"

text \<open>The pair \<^verbatim>\<open>(dx, dy)\<close> of the updater.\<close>

definition delta :: "Axes \<Rightarrow> GamepadButtonName set \<Rightarrow> real \<Rightarrow> real \<times> real" where
  "delta axes pressed dt =
     (let inp = getInputVector axes pressed;
          dx = x inp * currentSpeed pressed * dt;
          dy = y inp * currentSpeed pressed * dt
      in (dx, dy))"

definition newRotation :: "GamepadButtonName set \<Rightarrow> real \<Rightarrow> PlayerState \<Rightarrow> real" where
  "newRotation pressed dt prev =
     (let r0 = rotation prev;
          r1 = (if ''lb'' \<in> pressed then r0 - 200 * dt else r0);
          r2 = (if ''rb'' \<in> pressed then r1 + 200 * dt else r1)
      in r2)"

definition newScale :: "GamepadButtonName set \<Rightarrow> real \<Rightarrow> PlayerState \<Rightarrow> real" where
  "newScale pressed dt prev =
     (let s0 = scale prev;
          s1 = (if ''lt'' \<in> pressed then max 0.5 (s0 - 2 * dt) else s0);
          s2 = (if ''rt'' \<in> pressed then min 2.5 (s1 + 2 * dt) else s1)
      in s2)"

text \<open>The object \<^verbatim>\<open>next\<close> of the updater.\<close>

definition nextPlayer ::
  "real \<Rightarrow> real \<Rightarrow> GamepadButtonName set \<Rightarrow> Axes \<Rightarrow> PlayerState \<Rightarrow> PlayerState" where
  "nextPlayer bs dt pressed axes prev =
     (case delta axes pressed dt of
        (dx, dy) \<Rightarrow>
          \<lparr>x = clamp (x prev + dx) (PLAYER_SIZE / 2) (bs - PLAYER_SIZE / 2),
           y = clamp (y prev + dy) (PLAYER_SIZE / 2) (bs - PLAYER_SIZE / 2),
           rotation = newRotation pressed dt prev,
           scale = newScale pressed dt prev\<rparr>)"

text \<open>
  The function passed to \<^verbatim>\<open>setPlayer\<close>: it computes the next player and, on a collision,
  respawns the target, increments the score and pulses the controller when the bridge
  offers \<^verbatim>\<open>vibrate\<close>. Each frame runs it once.
\<close>

definition updater ::
  "real \<Rightarrow> bool \<Rightarrow> (nat \<Rightarrow> real) \<Rightarrow> real \<Rightarrow> GamepadButtonName set \<Rightarrow> Axes \<Rightarrow> Game \<Rightarrow> Game" where
  "updater bs vibrate rnd dt pressed axes g =
     (let nxt = nextPlayer bs dt pressed axes (player g);
          d = distance nxt (target g);
          effectivePlayerSize = PLAYER_SIZE * scale nxt
      in if d \<le> (effectivePlayerSize + TARGET_SIZE) / 2 then
           (case spawnTarget bs nxt rnd (drawn g) of
              (newTarget, k) \<Rightarrow>
                g\<lparr>player := nxt, target := newTarget, score := score g + 1, drawn := k,
                  pulses := (if vibrate then pulses g @ [(60, 0.7)] else pulses g)\<rparr>)
         else g\<lparr>player := nxt\<rparr>)"

definition step :: "real \<Rightarrow> bool \<Rightarrow> (nat \<Rightarrow> real) \<Rightarrow> Frame \<Rightarrow> Game \<Rightarrow> Game" where
  "step bs vibrate rnd fr g =
     (let dt = frameDt (lastFrame g) (timestamp fr)
      in updater bs vibrate rnd dt (pressedRef fr) (axesRef fr)
           (g\<lparr>lastFrame := Some (timestamp fr)\<rparr>))"

text \<open>The animation loop calls \<open>step\<close> once per frame, in order.\<close>

primrec run :: "real \<Rightarrow> bool \<Rightarrow> (nat \<Rightarrow> real) \<Rightarrow> Frame list \<Rightarrow> Game \<Rightarrow> Game" where
  "run bs vibrate rnd [] g = g"
| "run bs vibrate rnd (fr # frs) g = run bs vibrate rnd frs (step bs vibrate rnd fr g)"

text \<open>
  The state at mount: the player in the middle of the board with rotation \<open>0\<close> and scale
  \<open>1\<close>, a first target from \<^verbatim>\<open>randomPoint(boardSize)\<close>, score \<open>0\<close> and no last frame.
\<close>

definition initial :: "real \<Rightarrow> (nat \<Rightarrow> real) \<Rightarrow> Game" where
  "initial bs rnd =
     (case randomPoint bs rnd 0 of
        (t, k) \<Rightarrow>
          \<lparr>player = \<lparr>x = bs / 2, y = bs / 2, rotation = 0, scale = 1\<rparr>,
           target = t, score = 0, lastFrame = None, drawn = k, pulses = []\<rparr>)"

section \<open>The movement vector in double arithmetic\<close>

text \<open>
  The length of the movement vector is decided by the last binary digit, so for it the
  rounding of doubles is modelled. The language leaves the accuracy of \<^verbatim>\<open>Math.hypot\<close>
  to the engine; it is a parameter here.
\<close>

text \<open>The power \<open>2\<^sup>e\<close> for an integer \<open>e\<close>.\<close>

definition pow2 :: "int \<Rightarrow> real" where
  "pow2 e = (if 0 \<le> e then 2 ^ nat e else 1 / 2 ^ nat (- e))"

text \<open>
  The binary exponent of a magnitude \<open>a\<close>: the \<open>e\<close> with \<open>2\<^sup>e \<le> a < 2\<^sup>e\<^sup>+\<^sup>1\<close>, found by
  doubling or halving at most \<open>n\<close> times.
\<close>

fun binade :: "nat \<Rightarrow> real \<Rightarrow> int" where
  "binade 0 a = 0"
| "binade (Suc n) a =
     (if a < 1 then binade n (2 * a) - 1
      else if 2 \<le> a then binade n (a / 2) + 1
      else 0)"

text \<open>Rounding to the nearest integer, a tie going to the even one.\<close>

definition roundEven :: "real \<Rightarrow> int" where
  "roundEven t =
     (let f = \<lfloor>t\<rfloor>; r = t - of_int f
      in if r < 1 / 2 then f
         else if 1 / 2 < r then f + 1
         else if even f then f else f + 1)"

text \<open>
  Rounding a real to the nearest double: the doubles around \<open>q\<close> are the multiples of
  \<open>2\<^sup>e\<^sup>-\<^sup>5\<^sup>2\<close>, where \<open>e\<close> is the binary exponent of \<open>q\<close> and at least \<open>-1022\<close> (below that
  the doubles are subnormal). Overflow is left out: no value here exceeds \<open>3\<close>.
\<close>

definition binary64 :: "real \<Rightarrow> real" where
  "binary64 q =
     (let e = max (binade 1100 \<bar>q\<bar>) (- 1022);
          u = pow2 (e - 52)
      in of_int (roundEven (q / u)) * u)"

text \<open>A \<^verbatim>\<open>Math.hypot\<close> that returns the double nearest to the exact length.\<close>

definition hypot64 :: "real \<Rightarrow> real \<Rightarrow> real" where
  "hypot64 a b = binary64 (sqrt (a\<^sup>2 + b\<^sup>2))"

text \<open>
  \<^verbatim>\<open>getInputVector\<close> once more, operation for operation, with the rounding of each
  arithmetic operation written out: \<open>rd\<close> rounds the result of an addition, a subtraction
  and a division, and \<open>hyp\<close> is \<^verbatim>\<open>Math.hypot\<close> as the engine implements it.
  \<^verbatim>\<open>Math.min\<close> and \<^verbatim>\<open>Math.max\<close> do not round.
\<close>

definition getInputVector_rounded ::
  "(real \<Rightarrow> real) \<Rightarrow> (real \<Rightarrow> real \<Rightarrow> real) \<Rightarrow> Axes \<Rightarrow> GamepadButtonName set \<Rightarrow> point" where
  "getInputVector_rounded rd hyp axes pressed =
     (let leftX = axisOrZero axes ''leftX'';
          leftY = axisOrZero axes ''leftY'';
          cx = clamp (rd (rd (leftX + held pressed ''dpadRight'') - held pressed ''dpadLeft''))
                 (- 1) 1;
          cy = clamp (rd (rd (leftY + held pressed ''dpadDown'') - held pressed ''dpadUp''))
                 (- 1) 1;
          magnitude = max 1 (hyp cx cy)
      in \<lparr>x = rd (cx / magnitude), y = rd (cy / magnitude)\<rparr>)"

section \<open>The frame step with failures made explicit\<close>

text \<open>
  The source raises no exception of its own, but two of its operations can go wrong: a
  division by zero yields \<^verbatim>\<open>NaN\<close> or \<^verbatim>\<open>Infinity\<close>, which would spread to the player's
  position, and calling \<^verbatim>\<open>vibrate\<close> when the bridge offers none throws a
  \<^verbatim>\<open>TypeError\<close>. The functions below are the functions of the frame step again, with
  each division and the call of \<^verbatim>\<open>vibrate\<close> returning a failure where the operation
  goes wrong. A missing axis entry is the \<open>None\<close> of the axes map, which
  \<^verbatim>\<open>?? 0\<close> replaces before any arithmetic, and the loop of \<^verbatim>\<open>spawnTarget\<close> is proved
  to terminate where it is defined.
\<close>

datatype failure = NotANumber | NotAFunction

definition andThen :: "failure + 'a \<Rightarrow> ('a \<Rightarrow> failure + 'b) \<Rightarrow> failure + 'b" where
  "andThen r f = (case r of Inl e \<Rightarrow> Inl e | Inr v \<Rightarrow> f v)"

definition divide_checked :: "real \<Rightarrow> real \<Rightarrow> failure + real" where
  "divide_checked a b = (if b = 0 then Inl NotANumber else Inr (a / b))"

definition call_checked :: "bool \<Rightarrow> real \<Rightarrow> real \<Rightarrow> failure + real \<times> real" where
  "call_checked defined duration intensity =
     (if defined then Inr (duration, intensity) else Inl NotAFunction)"

definition getInputVector_checked :: "Axes \<Rightarrow> GamepadButtonName set \<Rightarrow> failure + point" where
  "getInputVector_checked axes pressed =
     (let leftX = axisOrZero axes ''leftX'';
          leftY = axisOrZero axes ''leftY'';
          cx = clamp (leftX + held pressed ''dpadRight'' - held pressed ''dpadLeft'') (- 1) 1;
          cy = clamp (leftY + held pressed ''dpadDown'' - held pressed ''dpadUp'') (- 1) 1;
          magnitude = max 1 (hypot cx cy)
      in andThen (divide_checked cx magnitude) (\<lambda>vx.
         andThen (divide_checked cy magnitude) (\<lambda>vy.
         Inr \<lparr>x = vx, y = vy\<rparr>)))"

definition frameDt_checked :: "real option \<Rightarrow> real \<Rightarrow> failure + real" where
  "frameDt_checked lastF ts =
     (let lst = (case lastF of None \<Rightarrow> ts | Some t \<Rightarrow> t)
      in andThen (divide_checked (ts - lst) 1000) (\<lambda>sec.
         Inr (min sec 0.05)))"

definition delta_checked ::
  "Axes \<Rightarrow> GamepadButtonName set \<Rightarrow> real \<Rightarrow> failure + real \<times> real" where
  "delta_checked axes pressed dt =
     andThen (getInputVector_checked axes pressed) (\<lambda>inp.
     Inr (x inp * currentSpeed pressed * dt, y inp * currentSpeed pressed * dt))"

definition nextPlayer_checked ::
  "real \<Rightarrow> real \<Rightarrow> GamepadButtonName set \<Rightarrow> Axes \<Rightarrow> PlayerState \<Rightarrow> failure + PlayerState" where
  "nextPlayer_checked bs dt pressed axes prev =
     andThen (delta_checked axes pressed dt) (\<lambda>d.
     andThen (divide_checked PLAYER_SIZE 2) (\<lambda>half.
     Inr \<lparr>x = clamp (x prev + fst d) half (bs - half),
          y = clamp (y prev + snd d) half (bs - half),
          rotation = newRotation pressed dt prev,
          scale = newScale pressed dt prev\<rparr>))"

definition updater_checked ::
  "real \<Rightarrow> bool \<Rightarrow> (nat \<Rightarrow> real) \<Rightarrow> real \<Rightarrow> GamepadButtonName set \<Rightarrow> Axes \<Rightarrow> Game
     \<Rightarrow> failure + Game" where
  "updater_checked bs vibrate rnd dt pressed axes g =
     andThen (nextPlayer_checked bs dt pressed axes (player g)) (\<lambda>nxt.
     andThen (divide_checked (PLAYER_SIZE * scale nxt + TARGET_SIZE) 2) (\<lambda>threshold.
     if distance nxt (target g) \<le> threshold then
       (case spawnTarget bs nxt rnd (drawn g) of
          (newTarget, k) \<Rightarrow>
            andThen (if vibrate
                     then andThen (call_checked vibrate 60 0.7) (\<lambda>p. Inr (pulses g @ [p]))
                     else Inr (pulses g)) (\<lambda>ps.
            Inr (g\<lparr>player := nxt, target := newTarget, score := score g + 1, drawn := k,
                   pulses := ps\<rparr>)))
     else Inr (g\<lparr>player := nxt\<rparr>)))"

definition step_checked ::
  "real \<Rightarrow> bool \<Rightarrow> (nat \<Rightarrow> real) \<Rightarrow> Frame \<Rightarrow> Game \<Rightarrow> failure + Game" where
  "step_checked bs vibrate rnd fr g =
     andThen (frameDt_checked (lastFrame g) (timestamp fr)) (\<lambda>dt.
     updater_checked bs vibrate rnd dt (pressedRef fr) (axesRef fr)
       (g\<lparr>lastFrame := Some (timestamp fr)\<rparr>))"

section \<open>Notions of the specification\<close>





text \<open>
  The board bounds inset by half the player's size, for any object with fields
  \<^verbatim>\<open>x\<close> and \<^verbatim>\<open>y\<close>.
\<close>

definition inBoard :: "real \<Rightarrow> 'a point_scheme \<Rightarrow> bool" where
  "inBoard bs p =
     (PLAYER_SIZE / 2 \<le> x p \<and> x p \<le> bs - PLAYER_SIZE / 2 \<and>
      PLAYER_SIZE / 2 \<le> y p \<and> y p \<le> bs - PLAYER_SIZE / 2)"

text \<open>
  Frame timestamps that do not run backwards: the timestamp of a frame is not before the
  one remembered in \<^verbatim>\<open>lastFrame\<close>, and a list of frames is ordered when this holds
  along the list. \<^verbatim>\<open>requestAnimationFrame\<close> hands out such timestamps.
\<close>

definition notBefore :: "real option \<Rightarrow> real \<Rightarrow> bool" where
  "notBefore lastF ts = (case lastF of None \<Rightarrow> True | Some t \<Rightarrow> t \<le> ts)"

primrec ordered :: "real option \<Rightarrow> Frame list \<Rightarrow> bool" where
  "ordered lastF [] = True"
| "ordered lastF (fr # frs) = (notBefore lastF (timestamp fr) \<and> ordered (Some (timestamp fr)) frs)"

text \<open>
  The points \<^verbatim>\<open>spawnTarget\<close> may draw, counted from \<open>0\<close>: point \<open>j\<close> is built from the
  samples \<open>k + 2 j\<close> and \<open>k + 2 j + 1\<close>. \<open>firstFail \<dots> n\<close> says that none of the
  points \<open>0, \<dots>, n - 1\<close> is farther than \<open>100\<close> from the player.
\<close>

definition sample :: "real \<Rightarrow> (nat \<Rightarrow> real) \<Rightarrow> nat \<Rightarrow> nat \<Rightarrow> point" where
  "sample bs rnd k j = fst (randomPoint bs rnd (k + 2 * j))"

primrec firstFail :: "real \<Rightarrow> PlayerState \<Rightarrow> (nat \<Rightarrow> real) \<Rightarrow> nat \<Rightarrow> nat \<Rightarrow> bool" where
  "firstFail bs pl rnd k 0 = True"
| "firstFail bs pl rnd k (Suc n) =
     (firstFail bs pl rnd k n \<and> \<not> 100 < distance (sample bs rnd k n) pl)"

subsection \<open>Concrete inputs\<close>

text \<open>
  A frame with no button pressed and no axis entry, a game with the player and the target
  at given places (rotation \<open>0\<close>, scale \<open>1\<close>, score \<open>0\<close>, no frame seen yet), and the
  sample sequence that is constantly \<open>0\<close>.
\<close>

definition neutralFrame :: "real \<Rightarrow> Frame" where
  "neutralFrame ts = \<lparr>timestamp = ts, pressedRef = {}, axesRef = Map.empty\<rparr>"

definition gameAt :: "real \<Rightarrow> real \<Rightarrow> real \<Rightarrow> real \<Rightarrow> Game" where
  "gameAt px py tx ty =
     \<lparr>player = \<lparr>x = px, y = py, rotation = 0, scale = 1\<rparr>,
      target = \<lparr>x = tx, y = ty\<rparr>, score = 0, lastFrame = None, drawn = 0, pulses = []\<rparr>"

definition noSamples :: "nat \<Rightarrow> real" where
  "noSamples n = 0"

text \<open>
  A frame with given buttons held, a sample sequence whose first forty samples are \<open>0\<close>
  and the later ones \<open>1/2\<close>, and two players near the corner and the edge of the board.
\<close>

definition heldFrame :: "real \<Rightarrow> GamepadButtonName set \<Rightarrow> Frame" where
  "heldFrame ts pressed = \<lparr>timestamp = ts, pressedRef = pressed, axesRef = Map.empty\<rparr>"

definition lateSamples :: "nat \<Rightarrow> real" where
  "lateSamples n = (if n < 40 then 0 else 1 / 2)"

definition cornerPlayer :: PlayerState where
  "cornerPlayer = \<lparr>x = 44, y = 44, rotation = 0, scale = 1\<rparr>"

text \<open>An axes object with the stick three quarters to the right and no other entry.\<close>

definition tiltedAxes :: Axes where
  "tiltedAxes = [''leftX'' \<mapsto> 3 / 4]"

definition sidePlayer :: PlayerState where
  "sidePlayer = \<lparr>x = 200, y = 44, rotation = 0, scale = 1\<rparr>"

section \<open>Properties\<close>

subsection \<open>Arithmetic of the helpers\<close>

lemma clamp_upper: "clamp v lo hi \<le> hi"
  by (simp add: clamp_def)

lemma clamp_lower: "lo \<le> hi \<Longrightarrow> lo \<le> clamp v lo hi"
  by (simp add: clamp_def)

lemma clamp_id: "lo \<le> v \<Longrightarrow> v \<le> hi \<Longrightarrow> clamp v lo hi = v"
  by (simp add: clamp_def)

lemma hypot_nonneg: "0 \<le> hypot a b"
  by (simp add: hypot_def)

lemma hypot_divide: "0 < m \<Longrightarrow> hypot (a / m) (b / m) = hypot a b / m"
proof -
  assume m: "0 < m"
  have "(a / m)\<^sup>2 + (b / m)\<^sup>2 = (a\<^sup>2 + b\<^sup>2) / m\<^sup>2"
    by (simp add: power_divide add_divide_distrib)
  then have "hypot (a / m) (b / m) = sqrt ((a\<^sup>2 + b\<^sup>2) / m\<^sup>2)"
    by (simp add: hypot_def)
  also have "\<dots> = sqrt (a\<^sup>2 + b\<^sup>2) / m"
    using m by (simp add: real_sqrt_divide)
  finally show ?thesis by (simp add: hypot_def)
qed

lemma normalised_le_1: "hypot (a / max 1 (hypot a b)) (b / max 1 (hypot a b)) \<le> 1"
proof -
  let ?m = "max 1 (hypot a b)"
  have m: "0 < ?m" by simp
  have "hypot (a / ?m) (b / ?m) = hypot a b / ?m"
    using m by (rule hypot_divide)
  also have "\<dots> \<le> 1" using m by (simp add: divide_le_eq)
  finally show ?thesis .
qed

lemma abs_le_hypot1: "\<bar>a\<bar> \<le> hypot a b"
proof -
  have "sqrt (a\<^sup>2) \<le> sqrt (a\<^sup>2 + b\<^sup>2)"
    by (rule real_sqrt_le_mono) simp
  then show ?thesis by (simp add: hypot_def)
qed

lemma abs_le_hypot2: "\<bar>b\<bar> \<le> hypot a b"
proof -
  have "sqrt (b\<^sup>2) \<le> sqrt (a\<^sup>2 + b\<^sup>2)"
    by (rule real_sqrt_le_mono) simp
  then show ?thesis by (simp add: hypot_def)
qed

subsection \<open>The movement vector\<close>

lemma getInputVector_exact_length:
  "sqrt ((x (getInputVector axes pressed))\<^sup>2 + (y (getInputVector axes pressed))\<^sup>2) \<le> 1"
  using normalised_le_1 by (simp add: getInputVector_def Let_def hypot_def)

lemma getInputVector_rounded_exact:
  "getInputVector_rounded (\<lambda>q. q) hypot axes pressed = getInputVector axes pressed"
  by (simp add: getInputVector_rounded_def getInputVector_def)

lemma pow2_pos: "0 < pow2 e"
  by (simp add: pow2_def)

lemma pow2_le_neg52: "e \<le> 0 \<Longrightarrow> pow2 (e - 52) \<le> 1 / 2 ^ 52"
proof -
  assume "e \<le> 0"
  then have n: "(52::nat) \<le> nat (52 - e)" by simp
  have "(2::real) ^ 52 \<le> 2 ^ nat (52 - e)"
    using n by (intro power_increasing) simp_all
  then have "1 / 2 ^ nat (52 - e) \<le> 1 / (2::real) ^ 52"
    by (intro divide_left_mono) simp_all
  with \<open>e \<le> 0\<close> show ?thesis by (simp add: pow2_def)
qed

lemma binade_le_0: "a < 2 \<Longrightarrow> binade n a \<le> 0"
proof (induction n arbitrary: a)
  case 0
  show ?case by simp
next
  case (Suc n)
  show ?case
  proof (cases "a < 1")
    case True
    then have "binade n (2 * a) \<le> 0" by (intro Suc.IH) simp
    with True show ?thesis by simp
  next
    case False
    with Suc.prems show ?thesis by simp
  qed
qed

lemma binade_unit: "1 \<le> a \<Longrightarrow> a < 2 \<Longrightarrow> binade (Suc n) a = 0"
  by simp

lemma binade_half: "1 / 2 \<le> a \<Longrightarrow> a < 1 \<Longrightarrow> binade (Suc (Suc n)) a = - 1"
  by simp

lemma roundEven_error: "\<bar>of_int (roundEven t) - t\<bar> \<le> 1 / 2"
proof -
  define r where "r = t - of_int \<lfloor>t\<rfloor>"
  have r: "0 \<le> r" "r < 1" unfolding r_def by linarith+
  have t: "t = of_int \<lfloor>t\<rfloor> + r" unfolding r_def by simp
  consider "r < 1 / 2" | "1 / 2 < r" | "r = 1 / 2" by linarith
  then show ?thesis
  proof cases
    case 1
    then have "roundEven t = \<lfloor>t\<rfloor>"
      by (simp add: roundEven_def Let_def r_def)
    then show ?thesis using r 1 by (subst (2) t) simp
  next
    case 2
    then have "roundEven t = \<lfloor>t\<rfloor> + 1"
      by (simp add: roundEven_def Let_def r_def)
    then show ?thesis using r 2 by (subst (2) t) simp
  next
    case 3
    then have "roundEven t = \<lfloor>t\<rfloor> \<or> roundEven t = \<lfloor>t\<rfloor> + 1"
      by (simp add: roundEven_def Let_def r_def)
    then show ?thesis using r 3 by (subst (2) t) auto
  qed
qed

lemma round_to_unit:
  assumes "0 < u"
  shows "\<bar>of_int (roundEven (q / u)) * u - q\<bar> \<le> u / 2"
proof -
  have "of_int (roundEven (q / u)) * u - q = (of_int (roundEven (q / u)) - q / u) * u"
    using assms by (simp add: field_simps)
  then have "\<bar>of_int (roundEven (q / u)) * u - q\<bar> = \<bar>of_int (roundEven (q / u)) - q / u\<bar> * u"
    using assms by (simp add: abs_mult)
  also have "\<dots> \<le> (1 / 2) * u"
    using assms roundEven_error [of "q / u"] by (intro mult_right_mono) simp_all
  finally show ?thesis by simp
qed

lemma binary64_error_unit:
  assumes "\<bar>q\<bar> \<le> 1"
  shows "\<bar>binary64 q - q\<bar> \<le> 1 / 2 ^ 53"
proof -
  let ?e = "max (binade 1100 \<bar>q\<bar>) (- 1022)"
  have "binade 1100 \<bar>q\<bar> \<le> 0"
    using assms by (intro binade_le_0) simp
  then have e: "?e \<le> 0" by simp
  have "\<bar>binary64 q - q\<bar> \<le> pow2 (?e - 52) / 2"
    unfolding binary64_def Let_def by (rule round_to_unit) (rule pow2_pos)
  also have "\<dots> \<le> (1 / 2 ^ 52) / 2"
    using pow2_le_neg52 [OF e] by simp
  finally show ?thesis by simp
qed

lemma clamp_unit_abs: "\<bar>clamp v (- 1) 1\<bar> \<le> 1"
  by (simp add: clamp_def abs_le_iff)

lemma hypot_le_sum_abs: "hypot a b \<le> \<bar>a\<bar> + \<bar>b\<bar>"
  unfolding hypot_def by (rule sqrt_sum_squares_le_sum_abs)

lemma hypot_triangle: "hypot (a + c) (b + d) \<le> hypot a b + hypot c d"
  unfolding hypot_def by (rule real_sqrt_sum_squares_triangle_ineq)

lemma ratio_bound:
  fixes s m :: real
  assumes m1: "1 \<le> m" and near: "1 \<le> s \<Longrightarrow> s - 1 / 2 ^ 52 \<le> m" and s0: "0 \<le> s"
  shows "s / m \<le> 1 + 2 / 2 ^ 52"
proof (cases "1 \<le> s")
  case False
  have "s / m \<le> s / 1"
    using m1 s0 by (intro divide_left_mono) simp_all
  moreover have "(0::real) \<le> 2 / 2 ^ 52" by simp
  ultimately show ?thesis using False by linarith
next
  case True
  have m0: "0 < m" using m1 by simp
  have "s \<le> (1 + 2 / 2 ^ 52) * (s - 1 / 2 ^ 52)"
    using True by (simp add: field_simps)
  also have "\<dots> \<le> (1 + 2 / 2 ^ 52) * m"
    using near [OF True] by (intro mult_left_mono) simp_all
  finally show ?thesis using m0 by (simp add: divide_le_eq)
qed

lemma rounded_length:
  assumes rd: "\<forall>q. \<bar>q\<bar> \<le> 1 \<longrightarrow> \<bar>rd q - q\<bar> \<le> 1 / 2 ^ 53"
    and m1: "1 \<le> m" and near: "1 \<le> hypot cx cy \<Longrightarrow> hypot cx cy - 1 / 2 ^ 52 \<le> m"
    and cx: "\<bar>cx\<bar> \<le> 1" and cy: "\<bar>cy\<bar> \<le> 1"
  shows "hypot (rd (cx / m)) (rd (cy / m)) \<le> 1 + 3 / 2 ^ 52"
proof -
  have m0: "0 < m" using m1 by simp
  have q: "\<bar>c\<bar> \<le> 1 \<Longrightarrow> \<bar>c / m\<bar> \<le> 1" for c :: real
  proof -
    assume c: "\<bar>c\<bar> \<le> 1"
    have "\<bar>c / m\<bar> = \<bar>c\<bar> / m" using m0 by simp
    also have "\<dots> \<le> \<bar>c\<bar> / 1"
      using m1 by (intro divide_left_mono) simp_all
    finally show ?thesis using c by simp
  qed
  have qx: "\<bar>cx / m\<bar> \<le> 1" using cx by (rule q)
  have qy: "\<bar>cy / m\<bar> \<le> 1" using cy by (rule q)
  have ex: "\<bar>rd (cx / m) - cx / m\<bar> \<le> 1 / 2 ^ 53" using rd qx by blast
  have ey: "\<bar>rd (cy / m) - cy / m\<bar> \<le> 1 / 2 ^ 53" using rd qy by blast
  have "hypot (rd (cx / m)) (rd (cy / m))
          = hypot (cx / m + (rd (cx / m) - cx / m)) (cy / m + (rd (cy / m) - cy / m))"
    by simp
  also have "\<dots> \<le> hypot (cx / m) (cy / m) + hypot (rd (cx / m) - cx / m) (rd (cy / m) - cy / m)"
    by (rule hypot_triangle)
  also have "hypot (cx / m) (cy / m) = hypot cx cy / m"
    using m0 by (rule hypot_divide)
  finally have "hypot (rd (cx / m)) (rd (cy / m))
      \<le> hypot cx cy / m + hypot (rd (cx / m) - cx / m) (rd (cy / m) - cy / m)" .
  moreover have "hypot cx cy / m \<le> 1 + 2 / 2 ^ 52"
    using m1 near hypot_nonneg by (rule ratio_bound)
  moreover have "hypot (rd (cx / m) - cx / m) (rd (cy / m) - cy / m) \<le> 1 / 2 ^ 53 + 1 / 2 ^ 53"
    using hypot_le_sum_abs [of "rd (cx / m) - cx / m" "rd (cy / m) - cy / m"] ex ey by linarith
  ultimately show ?thesis by simp
qed

lemma getInputVector_rounded_length:
  assumes "\<forall>q. \<bar>q\<bar> \<le> 1 \<longrightarrow> \<bar>rd q - q\<bar> \<le> 1 / 2 ^ 53"
    and "\<forall>a b. \<bar>a\<bar> \<le> 1 \<and> \<bar>b\<bar> \<le> 1 \<and> 1 \<le> sqrt (a\<^sup>2 + b\<^sup>2)
            \<longrightarrow> sqrt (a\<^sup>2 + b\<^sup>2) - 1 / 2 ^ 52 \<le> hyp a b"
  shows "sqrt ((x (getInputVector_rounded rd hyp axes pressed))\<^sup>2
               + (y (getInputVector_rounded rd hyp axes pressed))\<^sup>2) \<le> 1 + 3 / 2 ^ 52"
proof -
  define cx where "cx = clamp (rd (rd (axisOrZero axes ''leftX'' + held pressed ''dpadRight'')
                              - held pressed ''dpadLeft'')) (- 1) 1"
  define cy where "cy = clamp (rd (rd (axisOrZero axes ''leftY'' + held pressed ''dpadDown'')
                              - held pressed ''dpadUp'')) (- 1) 1"
  have cx: "\<bar>cx\<bar> \<le> 1" and cy: "\<bar>cy\<bar> \<le> 1"
    unfolding cx_def cy_def by (rule clamp_unit_abs)+
  have near: "1 \<le> hypot cx cy \<Longrightarrow> hypot cx cy - 1 / 2 ^ 52 \<le> max 1 (hyp cx cy)"
  proof -
    assume "1 \<le> hypot cx cy"
    then have "hypot cx cy - 1 / 2 ^ 52 \<le> hyp cx cy"
      using assms(2) cx cy unfolding hypot_def by blast
    then show ?thesis by simp
  qed
  have "hypot (rd (cx / max 1 (hyp cx cy))) (rd (cy / max 1 (hyp cx cy))) \<le> 1 + 3 / 2 ^ 52"
    using assms(1) _ near cx cy by (rule rounded_length) simp
  then show ?thesis
    by (simp add: getInputVector_rounded_def Let_def hypot_def cx_def cy_def)
qed

text \<open>
  Claim C2, as amended. Whatever the axes object holds for \<^verbatim>\<open>leftX\<close> and \<^verbatim>\<open>leftY\<close> (any
  value, or no entry) and whatever buttons are pressed, the vector returned by
  \<^verbatim>\<open>getInputVector\<close> has Euclidean length at most \<open>1\<close> in exact arithmetic. In double
  arithmetic, where a quotient of magnitude at most \<open>1\<close> is rounded with an error of at
  most \<open>2\<^sup>-\<^sup>5\<^sup>3\<close> and \<^verbatim>\<open>Math.hypot\<close> is at most \<open>2\<^sup>-\<^sup>5\<^sup>2\<close> below the exact length on
  vectors of length at least \<open>1\<close>, the length of the returned vector is at most
  \<open>1 + 3 / 2\<^sup>5\<^sup>2\<close>.
\<close>

theorem getInputVector_magnitude_bound:
  "sqrt ((x (getInputVector axes pressed))\<^sup>2 + (y (getInputVector axes pressed))\<^sup>2) \<le> 1
   \<and> ((\<forall>q. \<bar>q\<bar> \<le> 1 \<longrightarrow> \<bar>rd q - q\<bar> \<le> 1 / 2 ^ 53)
        \<and> (\<forall>a b. \<bar>a\<bar> \<le> 1 \<and> \<bar>b\<bar> \<le> 1 \<and> 1 \<le> sqrt (a\<^sup>2 + b\<^sup>2)
               \<longrightarrow> sqrt (a\<^sup>2 + b\<^sup>2) - 1 / 2 ^ 52 \<le> hyp a b)
      \<longrightarrow> sqrt ((x (getInputVector_rounded rd hyp axes pressed))\<^sup>2
                + (y (getInputVector_rounded rd hyp axes pressed))\<^sup>2) \<le> 1 + 3 / 2 ^ 52)"
  using getInputVector_exact_length [of axes pressed]
    getInputVector_rounded_length [of rd hyp axes pressed]
  by blast

lemma binade_1100_unit: "1 \<le> a \<Longrightarrow> a < 2 \<Longrightarrow> binade 1100 a = 0"
  using binade_unit [of a 1099] by simp

lemma binade_1100_half: "1 / 2 \<le> a \<Longrightarrow> a < 1 \<Longrightarrow> binade 1100 a = - 1"
  using binade_half [of a 1098] by simp

lemma roundEven_of_int: "roundEven (of_int k) = k"
  by (simp add: roundEven_def Let_def)

lemma binary64_unit:
  assumes "1 \<le> \<bar>q\<bar>" "\<bar>q\<bar> < 2"
  shows "binary64 q = of_int (roundEven (q * 2 ^ 52)) / 2 ^ 52"
  using assms by (simp add: binary64_def Let_def binade_1100_unit pow2_def)

lemma binary64_half:
  assumes "1 / 2 \<le> \<bar>q\<bar>" "\<bar>q\<bar> < 1"
  shows "binary64 q = of_int (roundEven (q * 2 ^ 53)) / 2 ^ 53"
  using assms by (simp add: binary64_def Let_def binade_1100_half pow2_def)

lemma b64_1: "binary64 1 = 1"
  by (simp add: binary64_unit roundEven_def Let_def)

lemma b64_34: "binary64 (3 / 4) = 3 / 4"
  by (simp add: binary64_half roundEven_def Let_def)

lemma b64_54: "binary64 (5 / 4) = 5 / 4"
  by (simp add: binary64_unit roundEven_def Let_def)

lemma b64_35: "binary64 (3 / 5) = 5404319552844595 / 2 ^ 53"
  by (simp add: binary64_half roundEven_def Let_def)

lemma b64_45: "binary64 (4 / 5) = 7205759403792794 / 2 ^ 53"
  by (simp add: binary64_half roundEven_def Let_def)

lemma hypot64_34_1: "hypot64 (3 / 4) 1 = 5 / 4"
proof -
  have "sqrt ((3 / 4)\<^sup>2 + 1\<^sup>2) = sqrt ((5 / 4)\<^sup>2)"
    by (simp add: power2_eq_square)
  then have "sqrt ((3 / 4)\<^sup>2 + 1\<^sup>2) = (5 / 4 :: real)"
    by (simp only: real_sqrt_abs)
  then show ?thesis by (simp only: hypot64_def b64_54)
qed

lemma hypot64_near:
  "\<forall>a b. \<bar>a\<bar> \<le> 1 \<and> \<bar>b\<bar> \<le> 1 \<and> 1 \<le> sqrt (a\<^sup>2 + b\<^sup>2)
            \<longrightarrow> sqrt (a\<^sup>2 + b\<^sup>2) - 1 / 2 ^ 52 \<le> hypot64 a b"
proof (intro allI impI)
  fix a b :: real
  assume h: "\<bar>a\<bar> \<le> 1 \<and> \<bar>b\<bar> \<le> 1 \<and> 1 \<le> sqrt (a\<^sup>2 + b\<^sup>2)"
  let ?s = "sqrt (a\<^sup>2 + b\<^sup>2)"
  have sq: "\<bar>c\<bar> \<le> 1 \<Longrightarrow> c\<^sup>2 \<le> 1" for c :: real
    using power_mono [of "\<bar>c\<bar>" 1 2] by simp
  have "a\<^sup>2 \<le> 1" "b\<^sup>2 \<le> 1"
    using h by (simp_all add: sq)
  then have "a\<^sup>2 + b\<^sup>2 < 2\<^sup>2" by simp
  then have "?s < sqrt (2\<^sup>2)" by (rule real_sqrt_less_mono)
  then have s2: "?s < 2" by simp
  have s1: "1 \<le> ?s" using h by simp
  have e: "max (binade 1100 \<bar>?s\<bar>) (- 1022) = 0"
    using s1 s2 by (simp add: binade_1100_unit)
  have "\<bar>binary64 ?s - ?s\<bar> \<le> pow2 (0 - 52) / 2"
    unfolding binary64_def Let_def e by (rule round_to_unit) (rule pow2_pos)
  then have "\<bar>binary64 ?s - ?s\<bar> \<le> 1 / 2 ^ 53"
    by (simp add: pow2_def)
  moreover have "(1::real) / 2 ^ 53 \<le> 1 / 2 ^ 52" by simp
  ultimately have "?s - 1 / 2 ^ 52 \<le> binary64 ?s" by linarith
  then show "?s - 1 / 2 ^ 52 \<le> hypot64 a b"
    unfolding hypot64_def .
qed

lemma binary64_near: "\<forall>q. \<bar>q\<bar> \<le> 1 \<longrightarrow> \<bar>binary64 q - q\<bar> \<le> 1 / 2 ^ 53"
  using binary64_error_unit by blast

lemma rounded_example:
  "getInputVector_rounded binary64 hypot64 tiltedAxes {''dpadDown''}
     = \<lparr>x = 5404319552844595 / 2 ^ 53, y = 7205759403792794 / 2 ^ 53\<rparr>"
  by (simp add: getInputVector_rounded_def tiltedAxes_def Let_def axisOrZero_def held_def
      clamp_def b64_1 b64_34 hypot64_34_1 b64_35 b64_45)

theorem getInputVector_magnitude_bound_witness:
  "sqrt ((x (getInputVector_rounded binary64 hypot64 tiltedAxes {''dpadDown''}))\<^sup>2
         + (y (getInputVector_rounded binary64 hypot64 tiltedAxes {''dpadDown''}))\<^sup>2)
     \<le> 1 + 3 / 2 ^ 52
   \<and> sqrt ((x (getInputVector tiltedAxes {''dpadDown''}))\<^sup>2
         + (y (getInputVector tiltedAxes {''dpadDown''}))\<^sup>2) \<le> 1"
  using getInputVector_magnitude_bound
    [of tiltedAxes "{''dpadDown''}" binary64 hypot64]
    binary64_near hypot64_near
  by blast

text \<open>
  The claim as first stated fails in doubles: with the stick at \<open>leftX = 0.75\<close> and the
  directional pad held down the clamped vector is \<open>(0.75, 1)\<close> of length \<open>1.25\<close>, and the
  two quotients round to the doubles nearest to \<open>0.6\<close> and \<open>0.8\<close>, a vector longer
  than \<open>1\<close>.
\<close>

theorem rounded_vector_longer_than_1:
  "getInputVector_rounded binary64 hypot64 tiltedAxes {''dpadDown''}
     = \<lparr>x = 5404319552844595 / 2 ^ 53, y = 7205759403792794 / 2 ^ 53\<rparr>
   \<and> 1 < sqrt ((x (getInputVector_rounded binary64 hypot64 tiltedAxes {''dpadDown''}))\<^sup>2
              + (y (getInputVector_rounded binary64 hypot64 tiltedAxes {''dpadDown''}))\<^sup>2)"
proof
  show "getInputVector_rounded binary64 hypot64 tiltedAxes {''dpadDown''}
     = \<lparr>x = 5404319552844595 / 2 ^ 53, y = 7205759403792794 / 2 ^ 53\<rparr>"
    by (rule rounded_example)
  show "1 < sqrt ((x (getInputVector_rounded binary64 hypot64 tiltedAxes {''dpadDown''}))\<^sup>2
              + (y (getInputVector_rounded binary64 hypot64 tiltedAxes {''dpadDown''}))\<^sup>2)"
    unfolding rounded_example by (rule real_less_rsqrt) (simp add: power2_eq_square)
qed






subsection \<open>The frame step: the player\<close>

lemma updater_player:
  "player (updater bs vibrate rnd dt pressed axes g) = nextPlayer bs dt pressed axes (player g)"
  by (simp add: updater_def Let_def split: prod.split)

lemma step_player:
  "player (step bs vibrate rnd fr g) =
     nextPlayer bs (frameDt (lastFrame g) (timestamp fr)) (pressedRef fr) (axesRef fr) (player g)"
  by (simp add: step_def Let_def updater_player)

lemma boardSize_range: "260 \<le> boardSize width \<and> boardSize width \<le> 420"
  by (simp add: boardSize_def)

lemma PLAYER_SIZE_le_boardSize: "PLAYER_SIZE \<le> boardSize width"
  using boardSize_range [of width] by (simp add: PLAYER_SIZE_def)

lemma nextPlayer_x:
  "x (nextPlayer bs dt pressed axes prev) =
     clamp (x prev + fst (delta axes pressed dt)) (PLAYER_SIZE / 2) (bs - PLAYER_SIZE / 2)"
  by (simp add: nextPlayer_def split: prod.split)

lemma nextPlayer_y:
  "y (nextPlayer bs dt pressed axes prev) =
     clamp (y prev + snd (delta axes pressed dt)) (PLAYER_SIZE / 2) (bs - PLAYER_SIZE / 2)"
  by (simp add: nextPlayer_def split: prod.split)

lemma nextPlayer_rotation:
  "rotation (nextPlayer bs dt pressed axes prev) = newRotation pressed dt prev"
  by (simp add: nextPlayer_def split: prod.split)

lemma nextPlayer_scale:
  "scale (nextPlayer bs dt pressed axes prev) = newScale pressed dt prev"
  by (simp add: nextPlayer_def split: prod.split)

lemma nextPlayer_inBoard:
  assumes "PLAYER_SIZE \<le> bs"
  shows "inBoard bs (nextPlayer bs dt pressed axes prev)"
proof -
  have le: "PLAYER_SIZE / 2 \<le> bs - PLAYER_SIZE / 2"
    using assms by simp
  show ?thesis
    unfolding inBoard_def nextPlayer_x nextPlayer_y
    by (intro conjI clamp_lower [OF le] clamp_upper)
qed

lemma step_inBoard: "PLAYER_SIZE \<le> bs \<Longrightarrow> inBoard bs (player (step bs vibrate rnd fr g))"
  by (simp add: step_player nextPlayer_inBoard)

lemma run_inBoard:
  "PLAYER_SIZE \<le> bs \<Longrightarrow> inBoard bs (player g)
     \<Longrightarrow> inBoard bs (player (run bs vibrate rnd frs g))"
  by (induction frs arbitrary: g) (simp_all add: step_inBoard)

lemma initial_player:
  "player (initial bs rnd) = \<lparr>x = bs / 2, y = bs / 2, rotation = 0, scale = 1\<rparr>"
  by (simp add: initial_def split: prod.split)

lemma initial_inBoard: "PLAYER_SIZE \<le> bs \<Longrightarrow> inBoard bs (player (initial bs rnd))"
  by (simp add: initial_player inBoard_def PLAYER_SIZE_def)

text \<open>
  Claim C1. On a board of the size the screen computes, the player a step produces lies
  within the board inset by half the player's size, whatever the previous state and the
  frame were; so it does after any non-empty sequence of frames from any state, and after
  any sequence of frames from the state at mount.
\<close>

theorem position_within_board:
  "inBoard (boardSize width) (player (step (boardSize width) vibrate rnd fr g))
   \<and> inBoard (boardSize width) (player (run (boardSize width) vibrate rnd (fr # frs) g))
   \<and> inBoard (boardSize width)
        (player (run (boardSize width) vibrate rnd frames (initial (boardSize width) rnd)))"
  using PLAYER_SIZE_le_boardSize [of width]
  by (simp add: step_inBoard run_inBoard initial_inBoard)

subsection \<open>The frame step: collision and score\<close>

lemma updater_score:
  "score (updater bs vibrate rnd dt pressed axes g) =
     (if distance (nextPlayer bs dt pressed axes (player g)) (target g)
           \<le> (PLAYER_SIZE * scale (nextPlayer bs dt pressed axes (player g)) + TARGET_SIZE) / 2
      then score g + 1 else score g)"
  by (simp add: updater_def Let_def split: prod.split)

lemma step_score:
  "score (step bs vibrate rnd fr g) =
     (if distance (player (step bs vibrate rnd fr g)) (target g)
           \<le> (PLAYER_SIZE * scale (player (step bs vibrate rnd fr g)) + TARGET_SIZE) / 2
      then score g + 1 else score g)"
  by (simp add: step_player) (simp add: step_def Let_def updater_score)


lemma updater_miss:
  "\<not> distance (nextPlayer bs dt pressed axes (player g)) (target g)
      \<le> (PLAYER_SIZE * scale (nextPlayer bs dt pressed axes (player g)) + TARGET_SIZE) / 2
   \<Longrightarrow> updater bs vibrate rnd dt pressed axes g =
        g\<lparr>player := nextPlayer bs dt pressed axes (player g)\<rparr>"
  by (simp add: updater_def Let_def split: prod.split)


lemma step_miss:
  "\<not> distance (player (step bs vibrate rnd fr g)) (target g)
      \<le> (PLAYER_SIZE * scale (player (step bs vibrate rnd fr g)) + TARGET_SIZE) / 2
   \<Longrightarrow> step bs vibrate rnd fr g =
        g\<lparr>player := player (step bs vibrate rnd fr g), lastFrame := Some (timestamp fr)\<rparr>"
  by (simp add: step_player) (simp add: step_def Let_def updater_miss)

lemma neutral_vector: "getInputVector Map.empty {} = \<lparr>x = 0, y = 0\<rparr>"
  by (simp add: getInputVector_def Let_def axisOrZero_def held_def clamp_def hypot_def)

lemma neutral_step_player:
  "player (step 260 vibrate rnd (neutralFrame ts) (gameAt 130 130 tx ty))
     = \<lparr>x = 130, y = 130, rotation = 0, scale = 1\<rparr>"
  by (simp add: step_player nextPlayer_def delta_def neutral_vector neutralFrame_def gameAt_def
      newRotation_def newScale_def clamp_def PLAYER_SIZE_def)



lemma step_score_bounds:
  "score g \<le> score (step bs vibrate rnd fr g) \<and> score (step bs vibrate rnd fr g) \<le> score g + 1"
  by (simp add: step_score)

lemma run_score_bounds:
  "score g \<le> score (run bs vibrate rnd frs g)
   \<and> score (run bs vibrate rnd frs g) \<le> score g + int (length frs)"
proof (induction frs arbitrary: g)
  case Nil
  show ?case by simp
next
  case (Cons fr frs)
  from Cons.IH [of "step bs vibrate rnd fr g"] step_score_bounds [of g bs vibrate rnd fr]
  show ?case by simp
qed

text \<open>
  Claim C6. A step adds exactly one to the score when the collision condition holds and
  leaves it unchanged otherwise; so the score never decreases and gains at most one per
  frame, over one step and over any sequence of frames.
\<close>

theorem score_increments_by_one:
  "score (step bs vibrate rnd fr g) =
     (if distance (player (step bs vibrate rnd fr g)) (target g)
           \<le> (PLAYER_SIZE * scale (player (step bs vibrate rnd fr g)) + TARGET_SIZE) / 2
      then score g + 1 else score g)
   \<and> score g \<le> score (step bs vibrate rnd fr g)
   \<and> score (step bs vibrate rnd fr g) \<le> score g + 1
   \<and> score g \<le> score (run bs vibrate rnd frames g)
   \<and> score (run bs vibrate rnd frames g) \<le> score g + int (length frames)"
  using step_score [of bs vibrate rnd fr g] step_score_bounds [of g bs vibrate rnd fr]
    run_score_bounds [of g bs vibrate rnd frames]
  by blast

text \<open>
  Claim C10. When the next player is farther from the target than the collision threshold,
  the step leaves the target and the score as they were: the state after the step is the
  state before with the player replaced by the next player (and the timestamp of the frame
  remembered for the next step).
\<close>

theorem miss_changes_only_player:
  assumes "(PLAYER_SIZE * scale (player (step bs vibrate rnd fr g)) + TARGET_SIZE) / 2
             < distance (player (step bs vibrate rnd fr g)) (target g)"
  shows "target (step bs vibrate rnd fr g) = target g
         \<and> score (step bs vibrate rnd fr g) = score g
         \<and> step bs vibrate rnd fr g =
             g\<lparr>player := nextPlayer bs (frameDt (lastFrame g) (timestamp fr)) (pressedRef fr)
                           (axesRef fr) (player g),
               lastFrame := Some (timestamp fr)\<rparr>"
proof -
  from assms have miss:
    "\<not> distance (player (step bs vibrate rnd fr g)) (target g)
        \<le> (PLAYER_SIZE * scale (player (step bs vibrate rnd fr g)) + TARGET_SIZE) / 2"
    by simp
  have s: "step bs vibrate rnd fr g =
        g\<lparr>player := player (step bs vibrate rnd fr g), lastFrame := Some (timestamp fr)\<rparr>"
    using miss by (rule step_miss)
  have "target (step bs vibrate rnd fr g) = target g"
    by (subst s) simp
  moreover have "score (step bs vibrate rnd fr g) = score g"
    by (subst s) simp
  moreover have "step bs vibrate rnd fr g =
             g\<lparr>player := nextPlayer bs (frameDt (lastFrame g) (timestamp fr)) (pressedRef fr)
                           (axesRef fr) (player g),
               lastFrame := Some (timestamp fr)\<rparr>"
    using s by (simp add: step_player)
  ultimately show ?thesis by blast
qed

theorem miss_changes_only_player_witness:
  "(PLAYER_SIZE
      * scale (player (step 260 True noSamples (neutralFrame 0) (gameAt 130 130 230 130)))
      + TARGET_SIZE) / 2 = 35
   \<and> distance (player (step 260 True noSamples (neutralFrame 0) (gameAt 130 130 230 130)))
       (target (gameAt 130 130 230 130)) = 100
   \<and> target (step 260 True noSamples (neutralFrame 0) (gameAt 130 130 230 130))
       = \<lparr>x = 230, y = 130\<rparr>
   \<and> score (step 260 True noSamples (neutralFrame 0) (gameAt 130 130 230 130)) = 0"
proof -
  have t: "(PLAYER_SIZE
      * scale (player (step 260 True noSamples (neutralFrame 0) (gameAt 130 130 230 130)))
      + TARGET_SIZE) / 2 = 35"
    by (simp add: neutral_step_player PLAYER_SIZE_def TARGET_SIZE_def)
  have d: "distance (player (step 260 True noSamples (neutralFrame 0) (gameAt 130 130 230 130)))
       (target (gameAt 130 130 230 130)) = 100"
    by (simp add: neutral_step_player) (simp add: gameAt_def distance_def hypot_def)
  have "target (step 260 True noSamples (neutralFrame 0) (gameAt 130 130 230 130))
          = target (gameAt 130 130 230 130)
        \<and> score (step 260 True noSamples (neutralFrame 0) (gameAt 130 130 230 130))
          = score (gameAt 130 130 230 130)"
    using miss_changes_only_player
      [of 260 True noSamples "neutralFrame 0" "gameAt 130 130 230 130"] t d
    by simp
  then show ?thesis using t d by (simp add: gameAt_def)
qed

subsection \<open>The frame step: scale and elapsed time\<close>

lemma frameDt_le: "frameDt lastF ts \<le> 0.05"
  by (simp add: frameDt_def Let_def)

lemma frameDt_nonneg: "notBefore lastF ts \<Longrightarrow> 0 \<le> frameDt lastF ts"
  by (simp add: frameDt_def notBefore_def Let_def split: option.splits)

lemma newScale_range:
  "0 \<le> dt \<Longrightarrow> 0.5 \<le> scale prev \<Longrightarrow> scale prev \<le> 2.5
     \<Longrightarrow> 0.5 \<le> newScale pressed dt prev \<and> newScale pressed dt prev \<le> 2.5"
  unfolding newScale_def Let_def by (auto simp: min_def max_def)

lemma step_scale:
  "scale (player (step bs vibrate rnd fr g)) =
     newScale (pressedRef fr) (frameDt (lastFrame g) (timestamp fr)) (player g)"
  by (simp add: step_player nextPlayer_scale)

lemma step_rotation:
  "rotation (player (step bs vibrate rnd fr g)) =
     newRotation (pressedRef fr) (frameDt (lastFrame g) (timestamp fr)) (player g)"
  by (simp add: step_player nextPlayer_rotation)

lemma updater_lastFrame:
  "lastFrame (updater bs vibrate rnd dt pressed axes g) = lastFrame g"
  by (simp add: updater_def Let_def split: prod.split)

lemma step_lastFrame: "lastFrame (step bs vibrate rnd fr g) = Some (timestamp fr)"
  by (simp add: step_def Let_def updater_lastFrame)

lemma step_scale_range:
  "notBefore (lastFrame g) (timestamp fr) \<Longrightarrow> 0.5 \<le> scale (player g)
     \<Longrightarrow> scale (player g) \<le> 2.5
     \<Longrightarrow> 0.5 \<le> scale (player (step bs vibrate rnd fr g))
         \<and> scale (player (step bs vibrate rnd fr g)) \<le> 2.5"
  unfolding step_scale by (rule newScale_range) (simp_all add: frameDt_nonneg)

lemma run_scale_range:
  "ordered (lastFrame g) frs \<Longrightarrow> 0.5 \<le> scale (player g) \<Longrightarrow> scale (player g) \<le> 2.5
     \<Longrightarrow> 0.5 \<le> scale (player (run bs vibrate rnd frs g))
         \<and> scale (player (run bs vibrate rnd frs g)) \<le> 2.5"
proof (induction frs arbitrary: g)
  case Nil
  then show ?case by simp
next
  case (Cons fr frs)
  from Cons.prems have nb: "notBefore (lastFrame g) (timestamp fr)"
    and ord: "ordered (Some (timestamp fr)) frs"
    by simp_all
  have r: "0.5 \<le> scale (player (step bs vibrate rnd fr g))
         \<and> scale (player (step bs vibrate rnd fr g)) \<le> 2.5"
    using nb Cons.prems(2,3) by (rule step_scale_range)
  have "ordered (lastFrame (step bs vibrate rnd fr g)) frs"
    using ord by (simp add: step_lastFrame)
  from Cons.IH [OF this] r show ?case by simp
qed

lemma initial_lastFrame: "lastFrame (initial bs rnd) = None"
  by (simp add: initial_def split: prod.split)

text \<open>
  Claim C7. When the timestamps do not run backwards, a step keeps a scale in
  \<open>[0.5, 2.5]\<close> within \<open>[0.5, 2.5]\<close>, whichever of \<^verbatim>\<open>lt\<close> and \<^verbatim>\<open>rt\<close> are held. With
  \<^verbatim>\<open>lt\<close> alone the scale goes down by \<open>2\<close> per second but not below \<open>0.5\<close>, with
  \<^verbatim>\<open>rt\<close> alone it goes up by \<open>2\<close> per second but not above \<open>2.5\<close>, and with neither it
  stays. So the scale is in \<open>[0.5, 2.5]\<close> after any ordered sequence of frames from the
  state at mount, where it is \<open>1\<close>.
\<close>

theorem scale_stays_in_range:
  "(notBefore (lastFrame g) (timestamp fr) \<and> 0.5 \<le> scale (player g) \<and> scale (player g) \<le> 2.5
      \<longrightarrow> 0.5 \<le> scale (player (step bs vibrate rnd fr g))
          \<and> scale (player (step bs vibrate rnd fr g)) \<le> 2.5)
   \<and> (''lt'' \<in> pressedRef fr \<and> ''rt'' \<notin> pressedRef fr
      \<longrightarrow> scale (player (step bs vibrate rnd fr g))
            = max 0.5 (scale (player g) - 2 * frameDt (lastFrame g) (timestamp fr)))
   \<and> (''rt'' \<in> pressedRef fr \<and> ''lt'' \<notin> pressedRef fr
      \<longrightarrow> scale (player (step bs vibrate rnd fr g))
            = min 2.5 (scale (player g) + 2 * frameDt (lastFrame g) (timestamp fr)))
   \<and> (''lt'' \<notin> pressedRef fr \<and> ''rt'' \<notin> pressedRef fr
      \<longrightarrow> scale (player (step bs vibrate rnd fr g)) = scale (player g))
   \<and> (ordered None frames
      \<longrightarrow> 0.5 \<le> scale (player (run bs vibrate rnd frames (initial bs rnd)))
          \<and> scale (player (run bs vibrate rnd frames (initial bs rnd))) \<le> 2.5)"
proof (intro conjI impI)
  assume "notBefore (lastFrame g) (timestamp fr) \<and> 0.5 \<le> scale (player g)
            \<and> scale (player g) \<le> 2.5"
  then have r: "0.5 \<le> scale (player (step bs vibrate rnd fr g))
         \<and> scale (player (step bs vibrate rnd fr g)) \<le> 2.5"
    using step_scale_range by blast
  from r show "0.5 \<le> scale (player (step bs vibrate rnd fr g))" ..
  from r show "scale (player (step bs vibrate rnd fr g)) \<le> 2.5" ..
next
  assume "''lt'' \<in> pressedRef fr \<and> ''rt'' \<notin> pressedRef fr"
  then show "scale (player (step bs vibrate rnd fr g))
            = max 0.5 (scale (player g) - 2 * frameDt (lastFrame g) (timestamp fr))"
    by (simp add: step_scale newScale_def Let_def)
next
  assume "''rt'' \<in> pressedRef fr \<and> ''lt'' \<notin> pressedRef fr"
  then show "scale (player (step bs vibrate rnd fr g))
            = min 2.5 (scale (player g) + 2 * frameDt (lastFrame g) (timestamp fr))"
    by (simp add: step_scale newScale_def Let_def)
next
  assume "''lt'' \<notin> pressedRef fr \<and> ''rt'' \<notin> pressedRef fr"
  then show "scale (player (step bs vibrate rnd fr g)) = scale (player g)"
    by (simp add: step_scale newScale_def Let_def)
next
  assume o: "ordered None frames"
  have r: "0.5 \<le> scale (player (run bs vibrate rnd frames (initial bs rnd)))
          \<and> scale (player (run bs vibrate rnd frames (initial bs rnd))) \<le> 2.5"
    by (rule run_scale_range) (simp_all add: initial_lastFrame initial_player o)
  from r show "0.5 \<le> scale (player (run bs vibrate rnd frames (initial bs rnd)))" ..
  from r show "scale (player (run bs vibrate rnd frames (initial bs rnd))) \<le> 2.5" ..
qed

lemma frameDt_stall: "frameDt (Some 0) 100 = 0.05"
  by (simp add: frameDt_def Let_def)

theorem scale_stays_in_range_witness:
  "scale (player (step 260 True noSamples (heldFrame 100 {''lt''})
            ((gameAt 130 130 230 130)\<lparr>lastFrame := Some 0\<rparr>))) = 0.9
   \<and> scale (player (step 260 True noSamples (heldFrame 100 {''rt''})
            ((gameAt 130 130 230 130)\<lparr>lastFrame := Some 0\<rparr>))) = 1.1
   \<and> scale (player (step 260 True noSamples (heldFrame 100 {})
            ((gameAt 130 130 230 130)\<lparr>lastFrame := Some 0\<rparr>))) = 1
   \<and> 0.5 \<le> scale (player (step 260 True noSamples (heldFrame 100 {''lt'', ''rt''})
            ((gameAt 130 130 230 130)\<lparr>lastFrame := Some 0\<rparr>)))
   \<and> scale (player (step 260 True noSamples (heldFrame 100 {''lt'', ''rt''})
            ((gameAt 130 130 230 130)\<lparr>lastFrame := Some 0\<rparr>))) \<le> 2.5
   \<and> 0.5 \<le> scale (player (run 260 True noSamples
            [heldFrame 0 {''rt''}, heldFrame 100 {''rt''}, heldFrame 200 {''lt''}]
            (initial 260 noSamples)))
   \<and> scale (player (run 260 True noSamples
            [heldFrame 0 {''rt''}, heldFrame 100 {''rt''}, heldFrame 200 {''lt''}]
            (initial 260 noSamples))) \<le> 2.5"
proof -
  let ?g = "(gameAt 130 130 230 130)\<lparr>lastFrame := Some 0\<rparr>"
  have a: "scale (player (step 260 True noSamples (heldFrame 100 {''lt''}) ?g)) = 0.9"
    using scale_stays_in_range [of ?g "heldFrame 100 {''lt''}" 260 True noSamples "[]"]
    by (simp add: gameAt_def heldFrame_def frameDt_stall)
  have b: "scale (player (step 260 True noSamples (heldFrame 100 {''rt''}) ?g)) = 1.1"
    using scale_stays_in_range [of ?g "heldFrame 100 {''rt''}" 260 True noSamples "[]"]
    by (simp add: gameAt_def heldFrame_def frameDt_stall)
  have c: "scale (player (step 260 True noSamples (heldFrame 100 {}) ?g)) = 1"
    using scale_stays_in_range [of ?g "heldFrame 100 {}" 260 True noSamples "[]"]
    by (simp add: gameAt_def heldFrame_def)
  have d: "0.5 \<le> scale (player (step 260 True noSamples (heldFrame 100 {''lt'', ''rt''}) ?g))
     \<and> scale (player (step 260 True noSamples (heldFrame 100 {''lt'', ''rt''}) ?g)) \<le> 2.5"
    using scale_stays_in_range [of ?g "heldFrame 100 {''lt'', ''rt''}" 260 True noSamples "[]"]
    by (simp add: gameAt_def heldFrame_def notBefore_def)
  have e: "0.5 \<le> scale (player (run 260 True noSamples
            [heldFrame 0 {''rt''}, heldFrame 100 {''rt''}, heldFrame 200 {''lt''}]
            (initial 260 noSamples)))
   \<and> scale (player (run 260 True noSamples
            [heldFrame 0 {''rt''}, heldFrame 100 {''rt''}, heldFrame 200 {''lt''}]
            (initial 260 noSamples))) \<le> 2.5"
    using scale_stays_in_range [of ?g "heldFrame 100 {}" 260 True noSamples
        "[heldFrame 0 {''rt''}, heldFrame 100 {''rt''}, heldFrame 200 {''lt''}]"]
    by (simp add: heldFrame_def notBefore_def)
  from a b c d e show ?thesis by blast
qed

lemma getInputVector_x_abs: "\<bar>x (getInputVector axes pressed)\<bar> \<le> 1"
proof -
  have "\<bar>x (getInputVector axes pressed)\<bar>
          \<le> hypot (x (getInputVector axes pressed)) (y (getInputVector axes pressed))"
    by (rule abs_le_hypot1)
  also have "\<dots> \<le> 1"
    by (simp add: getInputVector_def Let_def normalised_le_1)
  finally show ?thesis .
qed

lemma getInputVector_y_abs: "\<bar>y (getInputVector axes pressed)\<bar> \<le> 1"
proof -
  have "\<bar>y (getInputVector axes pressed)\<bar>
          \<le> hypot (x (getInputVector axes pressed)) (y (getInputVector axes pressed))"
    by (rule abs_le_hypot2)
  also have "\<dots> \<le> 1"
    by (simp add: getInputVector_def Let_def normalised_le_1)
  finally show ?thesis .
qed

lemma currentSpeed_pos: "0 < currentSpeed pressed"
  by (simp add: currentSpeed_def BASE_SPEED_def Let_def)

lemma currentSpeed_cap: "currentSpeed pressed * 0.05 \<le> 30"
  by (simp add: currentSpeed_def BASE_SPEED_def Let_def)

lemma scaled_abs_le:
  fixes u s dt c :: real
  assumes "\<bar>u\<bar> \<le> 1" "0 < s" "0 \<le> dt" "dt \<le> c"
  shows "\<bar>u * s * dt\<bar> \<le> s * c"
proof -
  have "\<bar>u * s * dt\<bar> = \<bar>u\<bar> * (s * dt)"
    using assms(2,3) by (simp add: abs_mult)
  also have "\<dots> \<le> 1 * (s * dt)"
    using assms(1,2,3) by (intro mult_right_mono) simp_all
  also have "\<dots> \<le> s * c"
    using assms(2,4) by simp
  finally show ?thesis .
qed

lemma delta_bound:
  assumes "0 \<le> dt" "dt \<le> 0.05"
  shows "\<bar>fst (delta axes pressed dt)\<bar> \<le> currentSpeed pressed * 0.05
         \<and> \<bar>snd (delta axes pressed dt)\<bar> \<le> currentSpeed pressed * 0.05"
  unfolding delta_def Let_def fst_conv snd_conv
  using scaled_abs_le [OF getInputVector_x_abs currentSpeed_pos assms]
        scaled_abs_le [OF getInputVector_y_abs currentSpeed_pos assms]
  by blast

lemma clamp_moves_less:
  "lo \<le> p \<Longrightarrow> p \<le> hi \<Longrightarrow> \<bar>clamp (p + d) lo hi - p\<bar> \<le> \<bar>d\<bar>"
  unfolding clamp_def by (auto simp: min_def max_def)

lemma step_unfold:
  "step bs vibrate rnd fr g =
     updater bs vibrate rnd
       (min ((timestamp fr - (case lastFrame g of None \<Rightarrow> timestamp fr | Some t \<Rightarrow> t)) / 1000) 0.05)
       (pressedRef fr) (axesRef fr) (g\<lparr>lastFrame := Some (timestamp fr)\<rparr>)"
  by (simp add: step_def frameDt_def Let_def)

lemma step_move_bound:
  assumes nb: "notBefore (lastFrame g) (timestamp fr)" and ib: "inBoard bs (player g)"
  shows "\<bar>x (player (step bs vibrate rnd fr g)) - x (player g)\<bar>
           \<le> currentSpeed (pressedRef fr) * 0.05
         \<and> \<bar>y (player (step bs vibrate rnd fr g)) - y (player g)\<bar>
           \<le> currentSpeed (pressedRef fr) * 0.05"
proof -
  let ?dt = "frameDt (lastFrame g) (timestamp fr)"
  let ?d = "delta (axesRef fr) (pressedRef fr) ?dt"
  have d: "\<bar>fst ?d\<bar> \<le> currentSpeed (pressedRef fr) * 0.05
         \<and> \<bar>snd ?d\<bar> \<le> currentSpeed (pressedRef fr) * 0.05"
    using frameDt_nonneg [OF nb] frameDt_le by (rule delta_bound)
  from ib have bx: "PLAYER_SIZE / 2 \<le> x (player g)" "x (player g) \<le> bs - PLAYER_SIZE / 2"
    and by': "PLAYER_SIZE / 2 \<le> y (player g)" "y (player g) \<le> bs - PLAYER_SIZE / 2"
    by (simp_all add: inBoard_def)
  have "\<bar>x (player (step bs vibrate rnd fr g)) - x (player g)\<bar> \<le> \<bar>fst ?d\<bar>"
    unfolding step_player nextPlayer_x using bx by (rule clamp_moves_less)
  moreover have "\<bar>y (player (step bs vibrate rnd fr g)) - y (player g)\<bar> \<le> \<bar>snd ?d\<bar>"
    unfolding step_player nextPlayer_y using by' by (rule clamp_moves_less)
  ultimately show ?thesis using d by linarith
qed

text \<open>
  Claim C8. The elapsed time a step uses is
  \<open>min ((timestamp - last) / 1000) 0.05\<close>, where \<open>last\<close> is the remembered timestamp (or
  the frame's own, at the first frame); it never exceeds \<open>0.05\<close>. When the timestamps do
  not run backwards, the deltas \<^verbatim>\<open>dx\<close> and \<^verbatim>\<open>dy\<close> are bounded by the speed times \<open>0.05\<close>,
  which is at most \<open>240 * 2.5 * 0.05 = 30\<close>, and so is the move of a player that was
  within the board.
\<close>

theorem elapsed_time_capped:
  "step bs vibrate rnd fr g =
     updater bs vibrate rnd
       (min ((timestamp fr - (case lastFrame g of None \<Rightarrow> timestamp fr | Some t \<Rightarrow> t)) / 1000) 0.05)
       (pressedRef fr) (axesRef fr) (g\<lparr>lastFrame := Some (timestamp fr)\<rparr>)
   \<and> frameDt (lastFrame g) (timestamp fr) \<le> 0.05
   \<and> currentSpeed (pressedRef fr) * 0.05 \<le> BASE_SPEED * 2.5 * 0.05
   \<and> BASE_SPEED * 2.5 * 0.05 = 30
   \<and> (notBefore (lastFrame g) (timestamp fr)
        \<longrightarrow> \<bar>fst (delta (axesRef fr) (pressedRef fr) (frameDt (lastFrame g) (timestamp fr)))\<bar>
              \<le> currentSpeed (pressedRef fr) * 0.05
          \<and> \<bar>snd (delta (axesRef fr) (pressedRef fr) (frameDt (lastFrame g) (timestamp fr)))\<bar>
              \<le> currentSpeed (pressedRef fr) * 0.05)
   \<and> (notBefore (lastFrame g) (timestamp fr) \<and> inBoard bs (player g)
        \<longrightarrow> \<bar>x (player (step bs vibrate rnd fr g)) - x (player g)\<bar>
              \<le> currentSpeed (pressedRef fr) * 0.05
          \<and> \<bar>y (player (step bs vibrate rnd fr g)) - y (player g)\<bar>
              \<le> currentSpeed (pressedRef fr) * 0.05)"
proof (intro conjI impI)
  show "step bs vibrate rnd fr g =
     updater bs vibrate rnd
       (min ((timestamp fr - (case lastFrame g of None \<Rightarrow> timestamp fr | Some t \<Rightarrow> t)) / 1000) 0.05)
       (pressedRef fr) (axesRef fr) (g\<lparr>lastFrame := Some (timestamp fr)\<rparr>)"
    by (rule step_unfold)
  show "frameDt (lastFrame g) (timestamp fr) \<le> 0.05"
    by (rule frameDt_le)
  show "currentSpeed (pressedRef fr) * 0.05 \<le> BASE_SPEED * 2.5 * 0.05"
    using currentSpeed_cap [of "pressedRef fr"] by (simp add: BASE_SPEED_def)
  show "BASE_SPEED * 2.5 * 0.05 = 30" by (simp add: BASE_SPEED_def)
next
  assume nb: "notBefore (lastFrame g) (timestamp fr)"
  have d: "\<bar>fst (delta (axesRef fr) (pressedRef fr) (frameDt (lastFrame g) (timestamp fr)))\<bar>
              \<le> currentSpeed (pressedRef fr) * 0.05
          \<and> \<bar>snd (delta (axesRef fr) (pressedRef fr) (frameDt (lastFrame g) (timestamp fr)))\<bar>
              \<le> currentSpeed (pressedRef fr) * 0.05"
    using frameDt_nonneg [OF nb] frameDt_le by (rule delta_bound)
  from d show "\<bar>fst (delta (axesRef fr) (pressedRef fr) (frameDt (lastFrame g) (timestamp fr)))\<bar>
              \<le> currentSpeed (pressedRef fr) * 0.05" ..
  from d show "\<bar>snd (delta (axesRef fr) (pressedRef fr) (frameDt (lastFrame g) (timestamp fr)))\<bar>
              \<le> currentSpeed (pressedRef fr) * 0.05" ..
next
  assume a: "notBefore (lastFrame g) (timestamp fr) \<and> inBoard bs (player g)"
  then have m: "\<bar>x (player (step bs vibrate rnd fr g)) - x (player g)\<bar>
           \<le> currentSpeed (pressedRef fr) * 0.05
         \<and> \<bar>y (player (step bs vibrate rnd fr g)) - y (player g)\<bar>
           \<le> currentSpeed (pressedRef fr) * 0.05"
    using step_move_bound by blast
  from m show "\<bar>x (player (step bs vibrate rnd fr g)) - x (player g)\<bar>
           \<le> currentSpeed (pressedRef fr) * 0.05" ..
  from m show "\<bar>y (player (step bs vibrate rnd fr g)) - y (player g)\<bar>
           \<le> currentSpeed (pressedRef fr) * 0.05" ..
qed


lemma frameDt_long_stall: "frameDt (Some 0) 1000 = 0.05"
  by (simp add: frameDt_def Let_def)

theorem elapsed_time_capped_witness:
  "frameDt (Some 0) 1000 = 0.05
   \<and> currentSpeed {''x'', ''dpadRight''} * 0.05 = 30
   \<and> \<bar>fst (delta Map.empty {''x'', ''dpadRight''} (frameDt (Some 0) 1000))\<bar> \<le> 30
   \<and> \<bar>snd (delta Map.empty {''x'', ''dpadRight''} (frameDt (Some 0) 1000))\<bar> \<le> 30
   \<and> \<bar>x (player (step 260 True noSamples (heldFrame 1000 {''x'', ''dpadRight''})
                 ((gameAt 130 130 230 130)\<lparr>lastFrame := Some 0\<rparr>))) - 130\<bar> \<le> 30
   \<and> \<bar>y (player (step 260 True noSamples (heldFrame 1000 {''x'', ''dpadRight''})
                 ((gameAt 130 130 230 130)\<lparr>lastFrame := Some 0\<rparr>))) - 130\<bar> \<le> 30"
proof -
  let ?g = "(gameAt 130 130 230 130)\<lparr>lastFrame := Some 0\<rparr>"
  let ?fr = "heldFrame 1000 {''x'', ''dpadRight''}"
  note T = elapsed_time_capped [of 260 True noSamples ?fr ?g]
  have nb: "notBefore (lastFrame ?g) (timestamp ?fr)"
    by (simp add: gameAt_def heldFrame_def notBefore_def)
  have ib: "inBoard 260 (player ?g)"
    by (simp add: gameAt_def inBoard_def PLAYER_SIZE_def)
  have sp: "currentSpeed {''x'', ''dpadRight''} * 0.05 = 30"
    by (simp add: currentSpeed_def BASE_SPEED_def Let_def)
  have fl: "lastFrame ?g = Some 0" "timestamp ?fr = 1000" "axesRef ?fr = Map.empty"
    "pressedRef ?fr = {''x'', ''dpadRight''}" "x (player ?g) = 130" "y (player ?g) = 130"
    by (simp_all add: gameAt_def heldFrame_def)
  from T nb have "\<bar>fst (delta (axesRef ?fr) (pressedRef ?fr) (frameDt (lastFrame ?g) (timestamp ?fr)))\<bar>
              \<le> currentSpeed (pressedRef ?fr) * 0.05
          \<and> \<bar>snd (delta (axesRef ?fr) (pressedRef ?fr) (frameDt (lastFrame ?g) (timestamp ?fr)))\<bar>
              \<le> currentSpeed (pressedRef ?fr) * 0.05"
    by blast
  then have d: "\<bar>fst (delta Map.empty {''x'', ''dpadRight''} (frameDt (Some 0) 1000))\<bar> \<le> 30
     \<and> \<bar>snd (delta Map.empty {''x'', ''dpadRight''} (frameDt (Some 0) 1000))\<bar> \<le> 30"
    unfolding fl sp .
  from T nb ib have "\<bar>x (player (step 260 True noSamples ?fr ?g)) - x (player ?g)\<bar>
              \<le> currentSpeed (pressedRef ?fr) * 0.05
          \<and> \<bar>y (player (step 260 True noSamples ?fr ?g)) - y (player ?g)\<bar>
              \<le> currentSpeed (pressedRef ?fr) * 0.05"
    by blast
  then have m: "\<bar>x (player (step 260 True noSamples ?fr ?g)) - 130\<bar> \<le> 30
     \<and> \<bar>y (player (step 260 True noSamples ?fr ?g)) - 130\<bar> \<le> 30"
    unfolding fl sp .
  from sp d m frameDt_long_stall show ?thesis by blast
qed

lemma neutral_getInputVector:
  assumes "pressed = {}" "axisOrZero axes ''leftX'' = 0" "axisOrZero axes ''leftY'' = 0"
  shows "getInputVector axes pressed = \<lparr>x = 0, y = 0\<rparr>"
  using assms by (simp add: getInputVector_def Let_def held_def clamp_def hypot_def)

lemma neutral_delta:
  assumes "pressed = {}" "axisOrZero axes ''leftX'' = 0" "axisOrZero axes ''leftY'' = 0"
  shows "delta axes pressed dt = (0, 0)"
  by (simp add: delta_def Let_def neutral_getInputVector [OF assms])

lemma andThen_Inr: "andThen (Inr v) f = f v"
  by (simp add: andThen_def)

lemma divide_checked_nonzero: "b \<noteq> 0 \<Longrightarrow> divide_checked a b = Inr (a / b)"
  by (simp add: divide_checked_def)

lemma magnitude_nonzero: "max 1 (hypot a b) \<noteq> 0"
  by (simp add: max_def)

lemma getInputVector_checked_ok:
  "getInputVector_checked axes pressed = Inr (getInputVector axes pressed)"
  by (simp add: getInputVector_checked_def getInputVector_def Let_def
      divide_checked_nonzero magnitude_nonzero andThen_Inr)

lemma frameDt_checked_ok: "frameDt_checked lastF ts = Inr (frameDt lastF ts)"
  by (simp add: frameDt_checked_def frameDt_def Let_def divide_checked_nonzero andThen_Inr)

lemma delta_checked_ok: "delta_checked axes pressed dt = Inr (delta axes pressed dt)"
  by (simp add: delta_checked_def delta_def Let_def getInputVector_checked_ok andThen_Inr)

lemma nextPlayer_checked_ok:
  "nextPlayer_checked bs dt pressed axes prev = Inr (nextPlayer bs dt pressed axes prev)"
  by (simp add: nextPlayer_checked_def nextPlayer_def delta_checked_ok andThen_Inr
      divide_checked_nonzero split: prod.split)

lemma updater_checked_ok:
  "updater_checked bs vibrate rnd dt pressed axes g
     = Inr (updater bs vibrate rnd dt pressed axes g)"
  by (simp add: updater_checked_def updater_def Let_def nextPlayer_checked_ok andThen_Inr
      divide_checked_nonzero call_checked_def split: prod.split)

lemma step_checked_ok: "step_checked bs vibrate rnd fr g = Inr (step bs vibrate rnd fr g)"
  by (simp add: step_checked_def step_def Let_def frameDt_checked_ok andThen_Inr
      updater_checked_ok)

lemma division_at_rest_unguarded: "divide_checked 0 (hypot 0 0) = Inl NotANumber"
  by (simp add: divide_checked_def hypot_def)

lemma call_of_missing_vibrate: "call_checked False 60 0.7 = Inl NotAFunction"
  by (simp add: call_checked_def)

text \<open>
  Claim C9, as amended. With no button pressed and both stick axes absent or zero,
  \<^verbatim>\<open>getInputVector\<close> returns the zero vector and the step leaves rotation and scale as
  they were; it leaves the position as it was when the player was within the board bounds
  (a player outside them is clamped into them). No input makes \<^verbatim>\<open>getInputVector\<close> or
  the step fail: with every division and the call of \<^verbatim>\<open>vibrate\<close> checked, they return
  the results of the unchecked functions, for every frame and every state.
\<close>

theorem neutral_input_keeps_player:
  "(pressedRef fr = {} \<and> axisOrZero (axesRef fr) ''leftX'' = 0
      \<and> axisOrZero (axesRef fr) ''leftY'' = 0
      \<longrightarrow> getInputVector (axesRef fr) (pressedRef fr) = \<lparr>x = 0, y = 0\<rparr>
        \<and> rotation (player (step bs vibrate rnd fr g)) = rotation (player g)
        \<and> scale (player (step bs vibrate rnd fr g)) = scale (player g)
        \<and> (inBoard bs (player g)
             \<longrightarrow> x (player (step bs vibrate rnd fr g)) = x (player g)
               \<and> y (player (step bs vibrate rnd fr g)) = y (player g)))
   \<and> getInputVector_checked (axesRef fr) (pressedRef fr)
       = Inr (getInputVector (axesRef fr) (pressedRef fr))
   \<and> step_checked bs vibrate rnd fr g = Inr (step bs vibrate rnd fr g)"
proof (intro conjI impI)
  show "getInputVector_checked (axesRef fr) (pressedRef fr)
          = Inr (getInputVector (axesRef fr) (pressedRef fr))"
    by (rule getInputVector_checked_ok)
  show "step_checked bs vibrate rnd fr g = Inr (step bs vibrate rnd fr g)"
    by (rule step_checked_ok)
next
  assume n: "pressedRef fr = {} \<and> axisOrZero (axesRef fr) ''leftX'' = 0
      \<and> axisOrZero (axesRef fr) ''leftY'' = 0"
  then show "getInputVector (axesRef fr) (pressedRef fr) = \<lparr>x = 0, y = 0\<rparr>"
    by (intro neutral_getInputVector) simp_all
  from n show "rotation (player (step bs vibrate rnd fr g)) = rotation (player g)"
    by (simp add: step_rotation newRotation_def Let_def)
  from n show "scale (player (step bs vibrate rnd fr g)) = scale (player g)"
    by (simp add: step_scale newScale_def Let_def)
next
  assume n: "pressedRef fr = {} \<and> axisOrZero (axesRef fr) ''leftX'' = 0
      \<and> axisOrZero (axesRef fr) ''leftY'' = 0"
    and ib: "inBoard bs (player g)"
  have d: "delta (axesRef fr) (pressedRef fr) (frameDt (lastFrame g) (timestamp fr)) = (0, 0)"
    using n by (intro neutral_delta) simp_all
  show "x (player (step bs vibrate rnd fr g)) = x (player g)"
    using ib by (simp add: step_player nextPlayer_x d inBoard_def clamp_id)
  show "y (player (step bs vibrate rnd fr g)) = y (player g)"
    using ib by (simp add: step_player nextPlayer_y d inBoard_def clamp_id)
qed

lemma boardSize_292: "boardSize 292 = 260"
  by (simp add: boardSize_def)

lemma boardSize_452: "boardSize 452 = 420"
  by (simp add: boardSize_def)

theorem neutral_input_keeps_player_witness:
  "getInputVector (axesRef (neutralFrame 16)) (pressedRef (neutralFrame 16)) = \<lparr>x = 0, y = 0\<rparr>
   \<and> getInputVector_checked (axesRef (neutralFrame 16)) (pressedRef (neutralFrame 16))
       = Inr \<lparr>x = 0, y = 0\<rparr>
   \<and> player (step (boardSize 452) False noSamples (neutralFrame 16) (gameAt 398 210 98 210))
       = player (gameAt 398 210 98 210)
   \<and> step_checked (boardSize 452) False noSamples (neutralFrame 16) (gameAt 398 210 98 210)
       = Inr (step (boardSize 452) False noSamples (neutralFrame 16) (gameAt 398 210 98 210))"
proof -
  let ?g = "gameAt 398 210 98 210"
  let ?fr = "neutralFrame 16"
  have h: "pressedRef ?fr = {} \<and> axisOrZero (axesRef ?fr) ''leftX'' = 0
      \<and> axisOrZero (axesRef ?fr) ''leftY'' = 0"
    by (simp add: neutralFrame_def axisOrZero_def)
  have ib: "inBoard (boardSize 452) (player ?g)"
    by (simp add: boardSize_452 gameAt_def inBoard_def PLAYER_SIZE_def)
  note T = neutral_input_keeps_player [of ?fr "boardSize 452" False noSamples ?g]
  from T h ib have "x (player (step (boardSize 452) False noSamples ?fr ?g)) = x (player ?g)"
    "y (player (step (boardSize 452) False noSamples ?fr ?g)) = y (player ?g)"
    "rotation (player (step (boardSize 452) False noSamples ?fr ?g)) = rotation (player ?g)"
    "scale (player (step (boardSize 452) False noSamples ?fr ?g)) = scale (player ?g)"
    by blast+
  then have p: "player (step (boardSize 452) False noSamples ?fr ?g) = player ?g"
    by (simp add: PlayerState.equality)
  from T h have z: "getInputVector (axesRef ?fr) (pressedRef ?fr) = \<lparr>x = 0, y = 0\<rparr>"
    by blast
  from T have c: "getInputVector_checked (axesRef ?fr) (pressedRef ?fr)
                    = Inr (getInputVector (axesRef ?fr) (pressedRef ?fr))"
    by blast
  from T have s: "step_checked (boardSize 452) False noSamples ?fr ?g
                    = Inr (step (boardSize 452) False noSamples ?fr ?g)"
    by blast
  from p z c s show ?thesis by simp
qed

text \<open>
  The claim as first stated fails for a player outside the bounds: a player at \<open>x = 398\<close>,
  within the board of size \<open>420\<close>, is moved to \<open>x = 238\<close> by a neutral step once the board
  has size \<open>260\<close>.
\<close>

theorem neutral_input_moves_outside_player:
  "getInputVector (axesRef (neutralFrame 16)) (pressedRef (neutralFrame 16)) = \<lparr>x = 0, y = 0\<rparr>
   \<and> inBoard (boardSize 452) (player (gameAt 398 210 44 44))
   \<and> x (player (gameAt 398 210 44 44)) = 398
   \<and> x (player (step (boardSize 292) True noSamples (neutralFrame 16) (gameAt 398 210 44 44)))
       = 238"
  by (simp add: boardSize_292 boardSize_452 neutralFrame_def neutral_vector gameAt_def inBoard_def
      step_player nextPlayer_x delta_def Let_def clamp_def PLAYER_SIZE_def)

subsection \<open>Respawning the target\<close>

lemma randomPoint_eq:
  "randomPoint bs rnd k =
     (\<lparr>x = rnd k * (bs - PLAYER_SIZE - PLAYER_SIZE) + PLAYER_SIZE,
       y = rnd (Suc k) * (bs - PLAYER_SIZE - PLAYER_SIZE) + PLAYER_SIZE\<rparr>, Suc (Suc k))"
  by (simp add: randomPoint_def randomBetween_def Let_def)

lemma randomPoint_sample: "randomPoint bs rnd k = (sample bs rnd k 0, Suc (Suc k))"
  by (simp add: sample_def randomPoint_eq)

lemma sample_shift: "sample bs rnd (Suc (Suc k)) j = sample bs rnd k (Suc j)"
  by (simp add: sample_def)

lemma firstFail_iff:
  "firstFail bs pl rnd k n = (\<forall>j<n. \<not> 100 < distance (sample bs rnd k j) pl)"
  by (induction n) (auto simp: less_Suc_eq)

lemma firstFail_shift:
  "firstFail bs pl rnd k (Suc n) =
     (\<not> 100 < distance (sample bs rnd k 0) pl \<and> firstFail bs pl rnd (Suc (Suc k)) n)"
proof -
  have "(\<forall>j<Suc n. \<not> 100 < distance (sample bs rnd k j) pl) =
        (\<not> 100 < distance (sample bs rnd k 0) pl
         \<and> (\<forall>j<n. \<not> 100 < distance (sample bs rnd k (Suc j)) pl))"
    by (metis less_Suc_eq_0_disj)
  then show ?thesis
    unfolding firstFail_iff sample_shift .
qed

lemma loop_exit: "spawnTarget_loop bs pl rnd 20 c k = (c, k)"
  by (simp add: spawnTarget_loop.simps)

lemma loop_pass:
  "i < 20 \<Longrightarrow> 100 < distance c pl \<Longrightarrow> spawnTarget_loop bs pl rnd i c k = (c, k)"
  by (simp add: spawnTarget_loop.simps [of bs pl rnd i])

lemma loop_retry:
  "i < 20 \<Longrightarrow> \<not> 100 < distance c pl \<Longrightarrow>
     spawnTarget_loop bs pl rnd i c k
       = spawnTarget_loop bs pl rnd (Suc i) (sample bs rnd k 0) (Suc (Suc k))"
  by (subst spawnTarget_loop.simps) (simp add: randomPoint_sample)

lemma loop_fail:
  "i + Suc n = 20 \<Longrightarrow> \<not> 100 < distance c pl \<Longrightarrow> firstFail bs pl rnd k n
     \<Longrightarrow> spawnTarget_loop bs pl rnd i c k = (sample bs rnd k n, k + 2 * Suc n)"
proof (induction n arbitrary: i c k)
  case 0
  then have "i = 19" by simp
  with "0.prems"(2) show ?case
    by (simp add: loop_retry loop_exit)
next
  case (Suc n)
  from Suc.prems(1) have i: "i < 20" and i': "Suc i + Suc n = 20" by simp_all
  from Suc.prems(3) have f0: "\<not> 100 < distance (sample bs rnd k 0) pl"
    and fr: "firstFail bs pl rnd (Suc (Suc k)) n"
    unfolding firstFail_shift by simp_all
  have "spawnTarget_loop bs pl rnd i c k
          = spawnTarget_loop bs pl rnd (Suc i) (sample bs rnd k 0) (Suc (Suc k))"
    using i Suc.prems(2) by (rule loop_retry)
  also have "\<dots> = (sample bs rnd (Suc (Suc k)) n, Suc (Suc k) + 2 * Suc n)"
    using i' f0 fr by (rule Suc.IH)
  finally show ?case by (simp add: sample_shift)
qed

lemma loop_pass_or_fail:
  "i + Suc n = 20 \<Longrightarrow>
     100 < distance (fst (spawnTarget_loop bs pl rnd i c k)) pl
     \<or> (\<not> 100 < distance c pl \<and> firstFail bs pl rnd k n)"
proof (induction n arbitrary: i c k)
  case 0
  then have "i < 20" by simp
  then show ?case by (cases "100 < distance c pl") (simp_all add: loop_pass)
next
  case (Suc n)
  from Suc.prems have i: "i < 20" and i': "Suc i + Suc n = 20" by simp_all
  show ?case
  proof (cases "100 < distance c pl")
    case True
    with i show ?thesis by (simp add: loop_pass)
  next
    case False
    have e: "spawnTarget_loop bs pl rnd i c k
          = spawnTarget_loop bs pl rnd (Suc i) (sample bs rnd k 0) (Suc (Suc k))"
      using i False by (rule loop_retry)
    have "100 < distance (fst (spawnTarget_loop bs pl rnd (Suc i) (sample bs rnd k 0)
                                 (Suc (Suc k)))) pl
          \<or> (\<not> 100 < distance (sample bs rnd k 0) pl
              \<and> firstFail bs pl rnd (Suc (Suc k)) n)"
      using i' by (rule Suc.IH)
    with False show ?thesis unfolding e firstFail_shift by blast
  qed
qed

lemma spawnTarget_first: "spawnTarget bs pl rnd k
    = spawnTarget_loop bs pl rnd 0 (sample bs rnd k 0) (Suc (Suc k))"
  by (simp add: spawnTarget_def randomPoint_sample)

lemma spawnTarget_fallback:
  assumes "firstFail bs pl rnd k 20"
  shows "spawnTarget bs pl rnd k = (sample bs rnd k 20, k + 42)"
proof -
  have "firstFail bs pl rnd k (Suc 19)" using assms by simp
  then have f0: "\<not> 100 < distance (sample bs rnd k 0) pl"
    and fr: "firstFail bs pl rnd (Suc (Suc k)) 19"
    unfolding firstFail_shift by simp_all
  have "spawnTarget_loop bs pl rnd 0 (sample bs rnd k 0) (Suc (Suc k))
          = (sample bs rnd (Suc (Suc k)) 19, Suc (Suc k) + 2 * Suc 19)"
    using _ f0 fr by (rule loop_fail) simp
  then show ?thesis by (simp add: spawnTarget_first sample_shift)
qed

lemma spawnTarget_far:
  assumes "\<not> firstFail bs pl rnd k 20"
  shows "100 < distance (fst (spawnTarget bs pl rnd k)) pl"
proof -
  have "100 < distance (fst (spawnTarget_loop bs pl rnd 0 (sample bs rnd k 0) (Suc (Suc k)))) pl
        \<or> (\<not> 100 < distance (sample bs rnd k 0) pl
            \<and> firstFail bs pl rnd (Suc (Suc k)) 19)"
    by (rule loop_pass_or_fail) simp
  then have "100 < distance (fst (spawnTarget bs pl rnd k)) pl
        \<or> firstFail bs pl rnd k (Suc 19)"
    unfolding spawnTarget_first firstFail_shift .
  with assms show ?thesis by simp
qed

lemma sample_range:
  assumes "PLAYER_SIZE + PLAYER_SIZE \<le> bs" "\<forall>n. 0 \<le> rnd n \<and> rnd n < 1"
  shows "PLAYER_SIZE \<le> x (sample bs rnd k j) \<and> x (sample bs rnd k j) \<le> bs - PLAYER_SIZE
       \<and> PLAYER_SIZE \<le> y (sample bs rnd k j) \<and> y (sample bs rnd k j) \<le> bs - PLAYER_SIZE"
proof -
  have w: "0 \<le> bs - PLAYER_SIZE - PLAYER_SIZE" using assms(1) by simp
  have r: "0 \<le> r \<Longrightarrow> r < 1 \<Longrightarrow>
        PLAYER_SIZE \<le> r * (bs - PLAYER_SIZE - PLAYER_SIZE) + PLAYER_SIZE
        \<and> r * (bs - PLAYER_SIZE - PLAYER_SIZE) + PLAYER_SIZE \<le> bs - PLAYER_SIZE" for r :: real
  proof -
    assume r: "0 \<le> r" "r < 1"
    have "0 \<le> r * (bs - PLAYER_SIZE - PLAYER_SIZE)"
      using r(1) w by (rule mult_nonneg_nonneg)
    moreover have "r * (bs - PLAYER_SIZE - PLAYER_SIZE) \<le> 1 * (bs - PLAYER_SIZE - PLAYER_SIZE)"
      using r(2) w by (intro mult_right_mono) simp_all
    ultimately show ?thesis by simp
  qed
  from assms(2) have a: "0 \<le> rnd (k + 2 * j)" "rnd (k + 2 * j) < 1"
    "0 \<le> rnd (Suc (k + 2 * j))" "rnd (Suc (k + 2 * j)) < 1"
    by simp_all
  show ?thesis
    using r [OF a(1,2)] r [OF a(3,4)] by (simp add: sample_def randomPoint_eq)
qed

lemma loop_is_sample:
  "i + n = 20 \<Longrightarrow>
     fst (spawnTarget_loop bs pl rnd i c k) = c
     \<or> (\<exists>j. fst (spawnTarget_loop bs pl rnd i c k) = sample bs rnd k j)"
proof (induction n arbitrary: i c k)
  case 0
  then show ?case by (simp add: loop_exit)
next
  case (Suc n)
  from Suc.prems have i: "i < 20" and i': "Suc i + n = 20" by simp_all
  show ?case
  proof (cases "100 < distance c pl")
    case True
    with i show ?thesis by (simp add: loop_pass)
  next
    case False
    have e: "spawnTarget_loop bs pl rnd i c k
          = spawnTarget_loop bs pl rnd (Suc i) (sample bs rnd k 0) (Suc (Suc k))"
      using i False by (rule loop_retry)
    have "fst (spawnTarget_loop bs pl rnd (Suc i) (sample bs rnd k 0) (Suc (Suc k)))
            = sample bs rnd k 0
          \<or> (\<exists>j. fst (spawnTarget_loop bs pl rnd (Suc i) (sample bs rnd k 0) (Suc (Suc k)))
                 = sample bs rnd (Suc (Suc k)) j)"
      using i' by (rule Suc.IH)
    then show ?thesis unfolding e sample_shift by blast
  qed
qed

lemma spawnTarget_is_sample: "\<exists>j. fst (spawnTarget bs pl rnd k) = sample bs rnd k j"
proof -
  have "fst (spawnTarget_loop bs pl rnd 0 (sample bs rnd k 0) (Suc (Suc k)))
          = sample bs rnd k 0
        \<or> (\<exists>j. fst (spawnTarget_loop bs pl rnd 0 (sample bs rnd k 0) (Suc (Suc k)))
               = sample bs rnd (Suc (Suc k)) j)"
    by (rule loop_is_sample) simp
  then show ?thesis unfolding spawnTarget_first sample_shift by blast
qed

lemma boardSize_margin: "PLAYER_SIZE + PLAYER_SIZE \<le> boardSize width"
  by (simp add: boardSize_def PLAYER_SIZE_def)

text \<open>
  Claim C5, as amended. On a board of the size the screen computes and with samples in
  \<open>[0, 1)\<close>, \<^verbatim>\<open>spawnTarget\<close> returns a point with both coordinates in
  \<open>[PLAYER_SIZE, boardSize - PLAYER_SIZE]\<close>. The point is farther than \<open>100\<close> from the
  player, unless the first twenty points drawn all fail that check: then the result is the
  twenty-first point drawn (point \<open>20\<close> counting from \<open>0\<close>), which is not checked.
\<close>

theorem spawnTarget_far_or_fresh:
  assumes "\<forall>n. 0 \<le> rnd n \<and> rnd n < 1"
  shows "PLAYER_SIZE \<le> x (fst (spawnTarget (boardSize width) pl rnd k))
         \<and> x (fst (spawnTarget (boardSize width) pl rnd k)) \<le> boardSize width - PLAYER_SIZE
         \<and> PLAYER_SIZE \<le> y (fst (spawnTarget (boardSize width) pl rnd k))
         \<and> y (fst (spawnTarget (boardSize width) pl rnd k)) \<le> boardSize width - PLAYER_SIZE
         \<and> (if firstFail (boardSize width) pl rnd k 20
             then fst (spawnTarget (boardSize width) pl rnd k) = sample (boardSize width) rnd k 20
             else 100 < distance (fst (spawnTarget (boardSize width) pl rnd k)) pl)"
proof -
  obtain j where j: "fst (spawnTarget (boardSize width) pl rnd k) = sample (boardSize width) rnd k j"
    using spawnTarget_is_sample by blast
  have range: "PLAYER_SIZE \<le> x (fst (spawnTarget (boardSize width) pl rnd k))
         \<and> x (fst (spawnTarget (boardSize width) pl rnd k)) \<le> boardSize width - PLAYER_SIZE
         \<and> PLAYER_SIZE \<le> y (fst (spawnTarget (boardSize width) pl rnd k))
         \<and> y (fst (spawnTarget (boardSize width) pl rnd k)) \<le> boardSize width - PLAYER_SIZE"
    unfolding j using boardSize_margin assms by (rule sample_range)
  have choice: "if firstFail (boardSize width) pl rnd k 20
             then fst (spawnTarget (boardSize width) pl rnd k) = sample (boardSize width) rnd k 20
             else 100 < distance (fst (spawnTarget (boardSize width) pl rnd k)) pl"
  proof (cases "firstFail (boardSize width) pl rnd k 20")
    case True
    then show ?thesis by (simp add: spawnTarget_fallback)
  next
    case False
    then show ?thesis by (simp add: spawnTarget_far)
  qed
  from range choice show ?thesis by blast
qed

lemma lateSamples_range: "\<forall>n. 0 \<le> lateSamples n \<and> lateSamples n < 1"
  by (simp add: lateSamples_def)

lemma noSamples_range: "\<forall>n. 0 \<le> noSamples n \<and> noSamples n < 1"
  by (simp add: noSamples_def)

lemma late_early: "j < 20 \<Longrightarrow> sample 260 lateSamples 0 j = \<lparr>x = 44, y = 44\<rparr>"
  by (simp add: sample_def randomPoint_eq lateSamples_def PLAYER_SIZE_def)

lemma late_20: "sample 260 lateSamples 0 20 = \<lparr>x = 130, y = 130\<rparr>"
  by (simp add: sample_def randomPoint_eq lateSamples_def PLAYER_SIZE_def)

lemma late_fail: "firstFail 260 cornerPlayer lateSamples 0 20"
  unfolding firstFail_iff by (simp add: late_early distance_def hypot_def cornerPlayer_def)

lemma side_pass: "\<not> firstFail 260 sidePlayer noSamples 0 20"
proof -
  have "sample 260 noSamples 0 0 = \<lparr>x = 44, y = 44\<rparr>"
    by (simp add: sample_def randomPoint_eq noSamples_def PLAYER_SIZE_def)
  then have "100 < distance (sample 260 noSamples 0 0) sidePlayer"
    by (simp add: distance_def hypot_def sidePlayer_def)
  moreover have "(0::nat) < 20" by simp
  ultimately show ?thesis unfolding firstFail_iff by blast
qed

theorem spawnTarget_far_or_fresh_witness:
  "firstFail (boardSize 292) cornerPlayer lateSamples 0 20
   \<and> fst (spawnTarget (boardSize 292) cornerPlayer lateSamples 0) = \<lparr>x = 130, y = 130\<rparr>
   \<and> \<not> firstFail (boardSize 292) sidePlayer noSamples 0 20
   \<and> 100 < distance (fst (spawnTarget (boardSize 292) sidePlayer noSamples 0)) sidePlayer
   \<and> PLAYER_SIZE \<le> x (fst (spawnTarget (boardSize 292) sidePlayer noSamples 0))
   \<and> x (fst (spawnTarget (boardSize 292) sidePlayer noSamples 0)) \<le> boardSize 292 - PLAYER_SIZE"
proof -
  note A = spawnTarget_far_or_fresh [OF lateSamples_range, of 292 cornerPlayer 0]
  note B = spawnTarget_far_or_fresh [OF noSamples_range, of 292 sidePlayer 0]
  have a: "firstFail (boardSize 292) cornerPlayer lateSamples 0 20"
    unfolding boardSize_292 by (rule late_fail)
  have b: "\<not> firstFail (boardSize 292) sidePlayer noSamples 0 20"
    unfolding boardSize_292 by (rule side_pass)
  from A a have "fst (spawnTarget (boardSize 292) cornerPlayer lateSamples 0)
                   = sample (boardSize 292) lateSamples 0 20"
    by simp
  then have c: "fst (spawnTarget (boardSize 292) cornerPlayer lateSamples 0) = \<lparr>x = 130, y = 130\<rparr>"
    by (simp add: boardSize_292 late_20)
  from B b have d: "100 < distance (fst (spawnTarget (boardSize 292) sidePlayer noSamples 0)) sidePlayer"
    by simp
  from B have e: "PLAYER_SIZE \<le> x (fst (spawnTarget (boardSize 292) sidePlayer noSamples 0))
   \<and> x (fst (spawnTarget (boardSize 292) sidePlayer noSamples 0)) \<le> boardSize 292 - PLAYER_SIZE"
    by blast
  from a b c d e show ?thesis by blast
qed

text \<open>
  The claim as first stated names the twentieth point as the fallback. Here the first
  twenty points all fail, the twentieth is \<open>(44, 44)\<close>, and the result is the twenty-first,
  \<open>(130, 130)\<close>.
\<close>

theorem spawnTarget_fallback_is_sample_21:
  "firstFail (boardSize 292) cornerPlayer lateSamples 0 20
   \<and> sample (boardSize 292) lateSamples 0 19 = \<lparr>x = 44, y = 44\<rparr>
   \<and> sample (boardSize 292) lateSamples 0 20 = \<lparr>x = 130, y = 130\<rparr>
   \<and> fst (spawnTarget (boardSize 292) cornerPlayer lateSamples 0) = \<lparr>x = 130, y = 130\<rparr>
   \<and> fst (spawnTarget (boardSize 292) cornerPlayer lateSamples 0)
       \<noteq> sample (boardSize 292) lateSamples 0 19"
  unfolding boardSize_292
  by (simp add: late_fail late_early late_20 spawnTarget_fallback)

end
